theory Spec2Isabelle
  imports Complex_Main
begin

section \<open>Values, errors and arrays\<close>

text \<open>
  The module \<^verbatim>\<open>pspipe_utils/simulation.py\<close> assembles covariance tensors from tabulated
  power spectra and draws noise realizations from them. Its three functions are embedded
  below, one HOL function per Python function, loops as recursion over the iterated
  sequence, exceptions as the left summand of a result.

  Numbers: the tabulated values are taken as real numbers and the arithmetic on them as
  exact; the rounding of double precision is not modelled. What numpy does where real
  arithmetic is undefined is modelled: a float division by zero does not raise, it yields
  an infinity or a NaN, and that value stays in the array. \<open>NonFin\<close> stands for any of
  these non-finite values.
  Equality of two entries is identity of values, with \<open>NonFin\<close> one value; the comparison
  of IEEE, where a NaN differs from itself, is not modelled.

  Counts (\<^verbatim>\<open>lmax\<close>, \<^verbatim>\<open>nsplits\<close>, \<^verbatim>\<open>n_splits\<close>) are natural numbers, as the docstrings
  read them (a maximum multipole, a number of splits).
\<close>

datatype error =
    FileError         \<comment> \<open>a file is missing or malformed (raised by the reader)\<close>
  | ValueError        \<comment> \<open>numpy: shapes that cannot be broadcast together\<close>
  | UnboundLocalError \<comment> \<open>Python: a local variable read before any assignment\<close>
  | DrawError         \<comment> \<open>raised by the realization-drawing primitive\<close>

datatype npfloat = Fin real | NonFin

definition np_div :: "real \<Rightarrow> real \<Rightarrow> npfloat" where
  "np_div a b = (if b = 0 then NonFin else Fin (a / b))"

fun np_mul :: "npfloat \<Rightarrow> npfloat \<Rightarrow> npfloat" where
  "np_mul (Fin a) (Fin b) = Fin (a * b)"
| "np_mul _ _ = NonFin"

text \<open>A three-dimensional array \<^verbatim>\<open>[array_i, array_j, multipole]\<close> as nested lists.\<close>

type_synonym matrix = "npfloat list list"
type_synonym tensor = "npfloat list list list"

definition zeros :: "nat \<Rightarrow> nat \<Rightarrow> nat \<Rightarrow> tensor" where
  "zeros a b c = replicate a (replicate b (replicate c (Fin 0)))"

text \<open>
  numpy's rule for storing a one-dimensional array into a slice of \<open>n\<close> places: the
  lengths agree, or the array has one element, which is repeated; anything else raises.
\<close>

definition broadcast_to :: "nat \<Rightarrow> 'a list \<Rightarrow> error + 'a list" where
  "broadcast_to n vs =
     (if length vs = n then Inr vs
      else if length vs = 1 then Inr (replicate n (hd vs))
      else Inl ValueError)"

text \<open>
  \<^verbatim>\<open>arr[c1, c2, start:stop] = vs\<close>. The bounds of the slice are clipped to the axis, as
  Python does; \<^verbatim>\<open>arr[c1, c2, :]\<close> is the slice from 0 to the length of the axis.
\<close>

definition assign_slice :: "tensor \<Rightarrow> nat \<Rightarrow> nat \<Rightarrow> nat \<Rightarrow> nat \<Rightarrow> npfloat list \<Rightarrow> error + tensor" where
  "assign_slice arr c1 c2 start stop vs =
     (let cell = arr ! c1 ! c2;
          lo = min start (length cell);
          hi = max lo (min stop (length cell))
      in case broadcast_to (hi - lo) vs of
           Inl e \<Rightarrow> Inl e
         | Inr ws \<Rightarrow> Inr (arr[c1 := (arr ! c1)[c2 := take lo cell @ ws @ drop hi cell]]))"

text \<open>\<^verbatim>\<open>xs[:n]\<close> for a Python integer \<open>n\<close>: a negative bound counts from the end.\<close>

definition py_take :: "int \<Rightarrow> 'a list \<Rightarrow> 'a list" where
  "py_take n xs = (if 0 \<le> n then take (nat n) xs else take (length xs - nat (- n)) xs)"

section \<open>The symmetrizer\<close>

text \<open>
  Modelled from the spec: \<^verbatim>\<open>fill_sym_mat\<close> is called by the module but neither defined nor
  imported in it. The spec: "given a square matrix with only the upper triangle populated,
  returns the full symmetric matrix (diagonal unchanged, lower triangle set from upper
  triangle transpose)".
\<close>

definition fill_sym_mat :: "matrix \<Rightarrow> matrix" where
  "fill_sym_mat mat =
     map (\<lambda>a. map (\<lambda>b. if a \<le> b then mat ! a ! b else mat ! b ! a) [0..<length mat])
       [0..<length mat]"

text \<open>\<^verbatim>\<open>arr[:, :, i]\<close>, read and stored.\<close>

definition get_plane :: "tensor \<Rightarrow> nat \<Rightarrow> matrix" where
  "get_plane arr i = map (map (\<lambda>cell. cell ! i)) arr"

definition set_plane :: "tensor \<Rightarrow> nat \<Rightarrow> matrix \<Rightarrow> tensor" where
  "set_plane arr i mat =
     map (\<lambda>a. map (\<lambda>b. (arr ! a ! b)[i := mat ! a ! b]) [0..<length (arr ! a)])
       [0..<length arr]"

definition sym_plane :: "nat \<Rightarrow> tensor \<Rightarrow> tensor" where
  "sym_plane i arr = set_plane arr i (fill_sym_mat (get_plane arr i))"

section \<open>The noise matrices\<close>

text \<open>
  The reader \<^verbatim>\<open>so_spectra.read_ps\<close> (the module calls it without importing \<^verbatim>\<open>so_spectra\<close>;
  it is the reader of the \<^verbatim>\<open>pspy\<close> library) is a parameter: from a path it returns an error or
  the table of the file, one row per multipole, each row the multipole and the value of
  each named spectrum. The module asks the reader for the nine spectra it names, so every
  lookup \<^verbatim>\<open>nl["TT"]\<close>, \<^verbatim>\<open>nl["EE"]\<close>, \<^verbatim>\<open>nl["BB"]\<close> finds its column, and the columns of
  one file have the same length. The reader is a function of the path: the files do not
  change during a call.
\<close>

type_synonym ps_table = "(real \<times> (string \<Rightarrow> real)) list"

definition ells :: "ps_table \<Rightarrow> real list" where
  "ells tab = map fst tab"

definition column :: "ps_table \<Rightarrow> string \<Rightarrow> real list" where
  "column tab name = map (\<lambda>row. snd row name) tab"

definition noise_path :: "string \<Rightarrow> string \<Rightarrow> string \<Rightarrow> string \<Rightarrow> string" where
  "noise_path noise_dir ar1 ar2 survey =
     noise_dir @ ''/mean_'' @ ar1 @ ''x'' @ ar2 @ ''_'' @ survey @ ''_noise.dat''"

text \<open>\<^verbatim>\<open>nl * nsplits * 2 * np.pi / (l * (l + 1))\<close>, element by element.\<close>

definition rescale_noise :: "nat \<Rightarrow> real list \<Rightarrow> real list \<Rightarrow> npfloat list" where
  "rescale_noise nsplits nl l =
     map2 (\<lambda>v l. np_div (v * real nsplits * 2 * pi) (l * (l + 1))) nl l"

type_synonym noise_state = "real list option \<times> tensor \<times> tensor"

text \<open>
  The two nested loops over \<^verbatim>\<open>enumerate(arrays)\<close>, as one recursion over the pairs in the
  order the loops visit them. The state is the local \<^verbatim>\<open>l\<close> (unbound before the first
  read) and the two tensors.
\<close>

fun noise_pairs ::
  "(string \<Rightarrow> error + ps_table) \<Rightarrow> string \<Rightarrow> string \<Rightarrow> nat \<Rightarrow> nat \<Rightarrow>
   ((nat \<times> string) \<times> (nat \<times> string)) list \<Rightarrow> noise_state \<Rightarrow> error + noise_state" where
  "noise_pairs read_ps noise_dir survey lmax nsplits [] s = Inr s"
| "noise_pairs read_ps noise_dir survey lmax nsplits (((c1, ar1), (c2, ar2)) # ps) (l0, t, p) =
     (if c1 > c2 then noise_pairs read_ps noise_dir survey lmax nsplits ps (l0, t, p)
      else case read_ps (noise_path noise_dir ar1 ar2 survey) of
        Inl e \<Rightarrow> Inl e
      | Inr nl \<Rightarrow>
          (let nl_t = take lmax (column nl ''TT'');
               nl_pol = map2 (\<lambda>e b. (e + b) / 2)
                          (take lmax (column nl ''EE'')) (take lmax (column nl ''BB''));
               l = take lmax (ells nl)
           in case assign_slice t c1 c2 0 lmax (rescale_noise nsplits nl_t l) of
                Inl e \<Rightarrow> Inl e
              | Inr t' \<Rightarrow>
                 (case assign_slice p c1 c2 0 lmax (rescale_noise nsplits nl_pol l) of
                    Inl e \<Rightarrow> Inl e
                  | Inr p' \<Rightarrow>
                      noise_pairs read_ps noise_dir survey lmax nsplits ps (Some l, t', p'))))"

text \<open>
  The function: both tensors start as zeros, the pairs are visited, every plane
  \<^verbatim>\<open>[:, :, i]\<close> of both tensors is symmetrized, and the local \<^verbatim>\<open>l\<close> of the last pair read is
  returned with the tensors. With no array nothing is read, and the return finds \<^verbatim>\<open>l\<close>
  unbound.
\<close>

definition get_noise_matrix_spin0and2 ::
  "(string \<Rightarrow> error + ps_table) \<Rightarrow> string \<Rightarrow> string \<Rightarrow> string list \<Rightarrow> nat \<Rightarrow> nat \<Rightarrow>
   error + (real list \<times> tensor \<times> tensor)" where
  "get_noise_matrix_spin0and2 read_ps noise_dir survey arrays lmax nsplits =
     (let n_arrays = length arrays;
          nl_array_t = zeros n_arrays n_arrays lmax;
          nl_array_pol = zeros n_arrays n_arrays lmax
      in case noise_pairs read_ps noise_dir survey lmax nsplits
                (List.product (enumerate 0 arrays) (enumerate 0 arrays))
                (None, nl_array_t, nl_array_pol) of
           Inl e \<Rightarrow> Inl e
         | Inr (l, t, p) \<Rightarrow>
            (case fold (\<lambda>i (t, p). (sym_plane i t, sym_plane i p)) [0..<lmax] (t, p) of
               (t', p') \<Rightarrow>
                 (case l of None \<Rightarrow> Inl UnboundLocalError | Some l \<Rightarrow> Inr (l, t', p'))))"

section \<open>The foreground matrix\<close>

text \<open>
  \<^verbatim>\<open>np.loadtxt(path, unpack=True)\<close> is a parameter: from a path it returns an error or the
  two columns of the file, one-dimensional arrays of the same length, as the rows
  (multipole, value). The local \<^verbatim>\<open>l\<close> is the whole first column; it is returned as it is.
\<close>

type_synonym fg_table = "(real \<times> real) list"

definition fg_path :: "string \<Rightarrow> string \<Rightarrow> string \<Rightarrow> string" where
  "fg_path fg_dir freq1 freq2 = fg_dir @ ''/fg_'' @ freq1 @ ''x'' @ freq2 @ ''_TT.dat''"

text \<open>\<^verbatim>\<open>fl_all *= 2 * np.pi / (l * (l + 1))\<close>, element by element.\<close>

definition rescale_fg :: "real list \<Rightarrow> real list \<Rightarrow> npfloat list" where
  "rescale_fg fl_all l = map2 (\<lambda>v l. np_mul (Fin v) (np_div (2 * pi) (l * (l + 1)))) fl_all l"

type_synonym fg_state = "real list option \<times> tensor"

fun fg_pairs ::
  "(string \<Rightarrow> error + fg_table) \<Rightarrow> string \<Rightarrow> nat \<Rightarrow>
   ((nat \<times> string) \<times> (nat \<times> string)) list \<Rightarrow> fg_state \<Rightarrow> error + fg_state" where
  "fg_pairs loadtxt fg_dir lmax [] s = Inr s"
| "fg_pairs loadtxt fg_dir lmax (((c1, freq1), (c2, freq2)) # ps) (l0, fl_array) =
     (if c1 > c2 then fg_pairs loadtxt fg_dir lmax ps (l0, fl_array)
      else case loadtxt (fg_path fg_dir freq1 freq2) of
        Inl e \<Rightarrow> Inl e
      | Inr tab \<Rightarrow>
          (let l = map fst tab;
               fl_all = rescale_fg (map snd tab) l
           in case assign_slice fl_array c1 c2 2 lmax (py_take (int lmax - 2) fl_all) of
                Inl e \<Rightarrow> Inl e
              | Inr fl_array' \<Rightarrow> fg_pairs loadtxt fg_dir lmax ps (Some l, fl_array')))"

text \<open>
  The function, as for the noise: one tensor of zeros, the pairs, the symmetrization of
  every plane, and the return of the local \<^verbatim>\<open>l\<close> with the tensor.
\<close>

definition get_foreground_matrix ::
  "(string \<Rightarrow> error + fg_table) \<Rightarrow> string \<Rightarrow> string list \<Rightarrow> nat \<Rightarrow>
   error + (real list \<times> tensor)" where
  "get_foreground_matrix loadtxt fg_dir all_freqs lmax =
     (let nfreqs = length all_freqs;
          fl_array = zeros nfreqs nfreqs lmax
      in case fg_pairs loadtxt fg_dir lmax
                (List.product (enumerate 0 all_freqs) (enumerate 0 all_freqs))
                (None, fl_array) of
           Inl e \<Rightarrow> Inl e
         | Inr (l, fl_array) \<Rightarrow>
            (let fl_array' = fold sym_plane [0..<lmax] fl_array
             in case l of None \<Rightarrow> Inl UnboundLocalError | Some l \<Rightarrow> Inr (l, fl_array')))"

section \<open>The noise realizations\<close>

text \<open>
  \<^verbatim>\<open>curvedsky.rand_alm\<close> is a parameter: from its first argument (an array, or \<^verbatim>\<open>None\<close>),
  \<^verbatim>\<open>lmax\<close>, \<^verbatim>\<open>dtype\<close> and the state of the random source it returns an error, or a
  realization and the new state of the source. The dictionary is keyed by the split index
  alone, or by a pair of a component and a split index.
\<close>

datatype key = Split nat | Comp string nat

type_synonym ('ps, 'dt, 'rng, 'alm) rand_alm =
  "'ps option \<Rightarrow> nat \<Rightarrow> 'dt \<Rightarrow> 'rng \<Rightarrow> error + ('alm \<times> 'rng)"

fun draw_t ::
  "('ps, 'dt, 'rng, 'alm) rand_alm \<Rightarrow> 'ps \<Rightarrow> nat \<Rightarrow> 'dt \<Rightarrow> nat list \<Rightarrow>
   (key \<rightharpoonup> 'alm) \<times> 'rng \<Rightarrow> error + ((key \<rightharpoonup> 'alm) \<times> 'rng)" where
  "draw_t rand nl_array_t lmax dtype [] s = Inr s"
| "draw_t rand nl_array_t lmax dtype (k # ks) (nlms, g) =
     (case rand (Some nl_array_t) lmax dtype g of
        Inl e \<Rightarrow> Inl e
      | Inr (a, g') \<Rightarrow> draw_t rand nl_array_t lmax dtype ks (nlms(Split k \<mapsto> a), g'))"

fun draw_teb ::
  "('ps, 'dt, 'rng, 'alm) rand_alm \<Rightarrow> 'ps \<Rightarrow> 'ps option \<Rightarrow> nat \<Rightarrow> 'dt \<Rightarrow> nat list \<Rightarrow>
   (key \<rightharpoonup> 'alm) \<times> 'rng \<Rightarrow> error + ((key \<rightharpoonup> 'alm) \<times> 'rng)" where
  "draw_teb rand nl_array_t nl_array_pol lmax dtype [] s = Inr s"
| "draw_teb rand nl_array_t nl_array_pol lmax dtype (k # ks) (nlms, g) =
     (case rand (Some nl_array_t) lmax dtype g of
        Inl e \<Rightarrow> Inl e
      | Inr (t, g1) \<Rightarrow>
         (case rand nl_array_pol lmax dtype g1 of
            Inl e \<Rightarrow> Inl e
          | Inr (e, g2) \<Rightarrow>
             (case rand nl_array_pol lmax dtype g2 of
                Inl e \<Rightarrow> Inl e
              | Inr (b, g3) \<Rightarrow>
                  draw_teb rand nl_array_t nl_array_pol lmax dtype ks
                    (nlms(Comp ''T'' k \<mapsto> t, Comp ''E'' k \<mapsto> e, Comp ''B'' k \<mapsto> b), g3))))"

definition generate_noise_alms ::
  "('ps, 'dt, 'rng, 'alm) rand_alm \<Rightarrow> 'ps \<Rightarrow> nat \<Rightarrow> nat \<Rightarrow> int \<Rightarrow> 'ps option \<Rightarrow> 'dt \<Rightarrow> 'rng \<Rightarrow>
   error + ((key \<rightharpoonup> 'alm) \<times> 'rng)" where
  "generate_noise_alms rand nl_array_t lmax n_splits ncomp nl_array_pol dtype g =
     (if ncomp = 1 then draw_t rand nl_array_t lmax dtype [0..<n_splits] (Map.empty, g)
      else draw_teb rand nl_array_t nl_array_pol lmax dtype [0..<n_splits] (Map.empty, g))"

section \<open>Notions used in the proofs\<close>

text \<open>
  The shape of a tensor \<^verbatim>\<open>(n, n, m)\<close>; the pairs of a loop over \<^verbatim>\<open>enumerate(names)\<close>, each
  index with the name at that index; the right-hand sides of the slice assignments; and
  what a cell holds once its pair has been assigned.
\<close>

definition shape :: "nat \<Rightarrow> nat \<Rightarrow> tensor \<Rightarrow> bool" where
  "shape n m arr \<longleftrightarrow>
     length arr = n \<and> (\<forall>i<n. length (arr ! i) = n \<and> (\<forall>j<n. length (arr ! i ! j) = m))"

definition indexed :: "string list \<Rightarrow> ((nat \<times> string) \<times> (nat \<times> string)) list \<Rightarrow> bool" where
  "indexed names ps \<longleftrightarrow>
     (\<forall>x \<in> set ps. fst (fst x) < length names \<and> fst (snd x) < length names \<and>
        snd (fst x) = names ! fst (fst x) \<and> snd (snd x) = names ! fst (snd x))"

definition noise_row_t :: "nat \<Rightarrow> nat \<Rightarrow> ps_table \<Rightarrow> npfloat list" where
  "noise_row_t lmax nsplits nl =
     rescale_noise nsplits (take lmax (column nl ''TT'')) (take lmax (ells nl))"

definition noise_row_pol :: "nat \<Rightarrow> nat \<Rightarrow> ps_table \<Rightarrow> npfloat list" where
  "noise_row_pol lmax nsplits nl =
     rescale_noise nsplits
       (map2 (\<lambda>e b. (e + b) / 2) (take lmax (column nl ''EE'')) (take lmax (column nl ''BB'')))
       (take lmax (ells nl))"

definition noise_cell ::
  "(string \<Rightarrow> error + ps_table) \<Rightarrow> string \<Rightarrow> string \<Rightarrow> nat \<Rightarrow> nat \<Rightarrow> string \<Rightarrow> string \<Rightarrow>
   npfloat list \<Rightarrow> npfloat list \<Rightarrow> bool" where
  "noise_cell read_ps noise_dir survey lmax nsplits ar1 ar2 ct cp \<longleftrightarrow>
     (\<exists>nl. read_ps (noise_path noise_dir ar1 ar2 survey) = Inr nl \<and>
        broadcast_to lmax (noise_row_t lmax nsplits nl) = Inr ct \<and>
        broadcast_to lmax (noise_row_pol lmax nsplits nl) = Inr cp)"

definition fg_row :: "nat \<Rightarrow> fg_table \<Rightarrow> npfloat list" where
  "fg_row lmax tab = py_take (int lmax - 2) (rescale_fg (map snd tab) (map fst tab))"

definition fg_cell ::
  "(string \<Rightarrow> error + fg_table) \<Rightarrow> string \<Rightarrow> nat \<Rightarrow> string \<Rightarrow> string \<Rightarrow> npfloat list \<Rightarrow> bool" where
  "fg_cell loadtxt fg_dir lmax freq1 freq2 ws \<longleftrightarrow>
     (\<exists>tab. loadtxt (fg_path fg_dir freq1 freq2) = Inr tab \<and>
        broadcast_to (lmax - 2) (fg_row lmax tab) = Inr ws)"

section \<open>Example inputs\<close>

text \<open>
  A deterministic stand-in for the drawing primitive, used to run the functions on
  concrete inputs: the random source is a counter, the realization drawn is the value of
  the counter, and a missing power spectrum is rejected.
\<close>

definition counter_rand :: "(tensor, unit, nat, nat) rand_alm" where
  "counter_rand ps lmax dtype g = (case ps of None \<Rightarrow> Inl DrawError | Some _ \<Rightarrow> Inr (g, Suc g))"

text \<open>
  Noise files for two arrays \<^verbatim>\<open>a\<close> and \<^verbatim>\<open>b\<close>, tabulated at the multipoles 2 and 3 with a
  constant TT spectrum (EE twice and BB four times that constant), and a file that starts
  at the multipole 0.
\<close>

definition example_spectra :: "real \<Rightarrow> string \<Rightarrow> real" where
  "example_spectra c name =
     (if name = ''TT'' then c else if name = ''EE'' then 2 * c else if name = ''BB'' then 4 * c else 0)"

definition example_read_ps :: "string \<Rightarrow> error + ps_table" where
  "example_read_ps path =
     (if path = ''n/mean_axa_s_noise.dat'' then Inr [(2, example_spectra 6), (3, example_spectra 6)]
      else if path = ''n/mean_axb_s_noise.dat'' then Inr [(2, example_spectra 12), (3, example_spectra 12)]
      else if path = ''n/mean_bxb_s_noise.dat'' then Inr [(2, example_spectra 18), (3, example_spectra 18)]
      else Inl FileError)"

definition example_read_ps_l0 :: "string \<Rightarrow> error + ps_table" where
  "example_read_ps_l0 path = Inr [(0, example_spectra 6), (1, example_spectra 6)]"

text \<open>
  Foreground files for the frequencies \<^verbatim>\<open>90\<close> and \<^verbatim>\<open>150\<close>, tabulated at the multipoles
  2 to 6, and a file tabulated from the multipole 0.
\<close>

definition example_loadtxt :: "string \<Rightarrow> error + fg_table" where
  "example_loadtxt path =
     (if path = ''f/fg_90x90_TT.dat'' then Inr [(2, 3), (3, 12), (4, 20), (5, 30), (6, 42)]
      else if path = ''f/fg_90x150_TT.dat'' then Inr [(2, 6), (3, 24), (4, 40), (5, 60), (6, 84)]
      else if path = ''f/fg_150x150_TT.dat'' then Inr [(2, 9), (3, 36), (4, 60), (5, 90), (6, 126)]
      else Inl FileError)"

definition example_loadtxt_l0 :: "string \<Rightarrow> error + fg_table" where
  "example_loadtxt_l0 path = Inr [(0, 10), (1, 20), (2, 30), (3, 40)]"

section \<open>Properties of the noise realizations\<close>

lemma draw_t_dom:
  "draw_t rand t lmax dt ks (m, g) = Inr (m', g') \<Longrightarrow> dom m' = dom m \<union> Split ` set ks"
proof (induction ks arbitrary: m g)
  case Nil
  then show ?case by auto
next
  case (Cons k ks)
  from Cons.prems obtain a g1 where
    r: "draw_t rand t lmax dt ks (m(Split k \<mapsto> a), g1) = Inr (m', g')"
    by (auto split: sum.splits)
  from Cons.IH[OF r] show ?case by auto
qed

lemma draw_teb_dom:
  "draw_teb rand t pol lmax dt ks (m, g) = Inr (m', g') \<Longrightarrow>
   dom m' = dom m \<union> {Comp c k | c k. c \<in> {''T'', ''E'', ''B''} \<and> k \<in> set ks}"
proof (induction ks arbitrary: m g)
  case Nil
  then show ?case by auto
next
  case (Cons k ks)
  from Cons.prems obtain a1 g1 a2 g2 a3 g3 where
    r: "draw_teb rand t pol lmax dt ks
          (m(Comp ''T'' k \<mapsto> a1, Comp ''E'' k \<mapsto> a2, Comp ''B'' k \<mapsto> a3), g3) = Inr (m', g')"
    by (auto split: sum.splits)
  have d: "dom (m(Comp ''T'' k \<mapsto> a1, Comp ''E'' k \<mapsto> a2, Comp ''B'' k \<mapsto> a3)) =
      insert (Comp ''B'' k) (insert (Comp ''E'' k) (insert (Comp ''T'' k) (dom m)))"
    by simp
  have "dom m' = insert (Comp ''B'' k) (insert (Comp ''E'' k) (insert (Comp ''T'' k) (dom m))) \<union>
      {Comp c k | c k. c \<in> {''T'', ''E'', ''B''} \<and> k \<in> set ks}"
    using Cons.IH[OF r] by (simp only: d)
  also have "\<dots> = dom m \<union> {Comp c j | c j. c \<in> {''T'', ''E'', ''B''} \<and> j \<in> set (k # ks)}"
    by (simp only: set_simps) blast
  finally show ?case .
qed

lemma draw_t_error:
  "draw_t rand t lmax dt ks (m, g) = Inl e \<Longrightarrow> \<exists>g0. rand (Some t) lmax dt g0 = Inl e"
  by (induction ks arbitrary: m g) (auto split: sum.splits)

lemma draw_teb_error:
  "draw_teb rand t pol lmax dt ks (m, g) = Inl e \<Longrightarrow> \<exists>ps g0. rand ps lmax dt g0 = Inl e"
proof (induction ks arbitrary: m g)
  case Nil
  then show ?case by simp
next
  case (Cons k ks)
  show ?case
  proof (cases "rand (Some t) lmax dt g")
    case (Inl e1)
    with Cons.prems show ?thesis by auto
  next
    case r1: (Inr x1)
    obtain a1 g1 where x1: "x1 = (a1, g1)" by (cases x1)
    show ?thesis
    proof (cases "rand pol lmax dt g1")
      case (Inl e2)
      with Cons.prems r1 x1 show ?thesis by auto
    next
      case r2: (Inr x2)
      obtain a2 g2 where x2: "x2 = (a2, g2)" by (cases x2)
      show ?thesis
      proof (cases "rand pol lmax dt g2")
        case (Inl e3)
        with Cons.prems r1 x1 r2 x2 show ?thesis by auto
      next
        case r3: (Inr x3)
        obtain a3 g3 where x3: "x3 = (a3, g3)" by (cases x3)
        from Cons.prems r1 x1 r2 x2 r3 x3 show ?thesis by (auto dest: Cons.IH)
      qed
    qed
  qed
qed

lemma card_split_keys: "card (Split ` {0..<n}) = n"
  by (simp add: card_image inj_on_def)

lemma teb_keys_image:
  "{Comp c k | c k. c \<in> {''T'', ''E'', ''B''} \<and> k < n} =
   (\<lambda>(c, k). Comp c k) ` ({''T'', ''E'', ''B''} \<times> {0..<n})"
  by auto

lemma card_teb_keys: "card {Comp c k | c k. c \<in> {''T'', ''E'', ''B''} \<and> k < n} = 3 * n"
proof -
  have "inj_on (\<lambda>(c, k). Comp c k) ({''T'', ''E'', ''B''} \<times> {0..<n})"
    by (auto simp: inj_on_def)
  then have "card ((\<lambda>(c, k). Comp c k) ` ({''T'', ''E'', ''B''} \<times> {0..<n})) =
      card ({''T'', ''E'', ''B''} \<times> {0..<n})"
    by (rule card_image)
  also have "\<dots> = 3 * n"
    by (simp add: card_cartesian_product)
  finally show ?thesis
    by (simp only: teb_keys_image)
qed

lemma counter_rand_t_run:
  "generate_noise_alms counter_rand [[[Fin 1, Fin 1]]] 2 2 1 pol () 0 =
   Inr ([Split 0 \<mapsto> 0, Split 1 \<mapsto> 1], 2)"
  by (simp add: generate_noise_alms_def counter_rand_def numeral_2_eq_2)

lemma counter_rand_teb_run:
  "ncomp \<noteq> 1 \<Longrightarrow>
   generate_noise_alms counter_rand [[[Fin 1, Fin 1]]] 2 1 ncomp (Some [[[Fin 1, Fin 1]]]) () 0 =
   Inr ([Comp ''T'' 0 \<mapsto> 0, Comp ''E'' 0 \<mapsto> 1, Comp ''B'' 0 \<mapsto> 2], 3)"
  by (simp add: generate_noise_alms_def counter_rand_def numeral_2_eq_2 numeral_3_eq_3)

text \<open>
  C4. A successful call with \<^verbatim>\<open>ncomp == 1\<close> returns a dictionary whose keys are exactly
  the split indices \<open>0..n_splits-1\<close>, so \<open>n_splits\<close> keys; with \<^verbatim>\<open>ncomp == 3\<close> its keys
  are exactly the pairs of a component among T, E, B and a split index, so \<open>3 * n_splits\<close>
  keys.
\<close>

theorem generate_noise_alms_keys:
  assumes "generate_noise_alms rand nl_array_t lmax n_splits ncomp nl_array_pol dtype g = Inr (nlms, g')"
  shows "(ncomp = 1 \<longrightarrow> dom nlms = Split ` {0..<n_splits} \<and> card (dom nlms) = n_splits) \<and>
         (ncomp = 3 \<longrightarrow>
            dom nlms = {Comp c k | c k. c \<in> {''T'', ''E'', ''B''} \<and> k < n_splits} \<and>
            card (dom nlms) = 3 * n_splits)"
proof (intro conjI impI)
  assume "ncomp = 1"
  with assms have "draw_t rand nl_array_t lmax dtype [0..<n_splits] (Map.empty, g) = Inr (nlms, g')"
    by (simp add: generate_noise_alms_def)
  from draw_t_dom[OF this] show d: "dom nlms = Split ` {0..<n_splits}"
    by simp
  show "card (dom nlms) = n_splits"
    by (simp only: d card_split_keys)
next
  assume "ncomp = 3"
  with assms have
    "draw_teb rand nl_array_t nl_array_pol lmax dtype [0..<n_splits] (Map.empty, g) = Inr (nlms, g')"
    by (simp add: generate_noise_alms_def)
  from draw_teb_dom[OF this]
  show d: "dom nlms = {Comp c k | c k. c \<in> {''T'', ''E'', ''B''} \<and> k < n_splits}"
    by simp
  show "card (dom nlms) = 3 * n_splits"
    by (simp only: d card_teb_keys)
qed

theorem generate_noise_alms_keys_witness:
  "generate_noise_alms counter_rand [[[Fin 1, Fin 1]]] 2 2 1 None () 0 =
     Inr ([Split 0 \<mapsto> 0, Split 1 \<mapsto> 1], 2) \<and>
   dom [Split 0 \<mapsto> 0::nat, Split 1 \<mapsto> 1] = Split ` {0..<2} \<and>
   card (dom [Split 0 \<mapsto> 0::nat, Split 1 \<mapsto> 1]) = 2 \<and>
   generate_noise_alms counter_rand [[[Fin 1, Fin 1]]] 2 1 3 (Some [[[Fin 1, Fin 1]]]) () 0 =
     Inr ([Comp ''T'' 0 \<mapsto> 0, Comp ''E'' 0 \<mapsto> 1, Comp ''B'' 0 \<mapsto> 2], 3) \<and>
   card (dom [Comp ''T'' 0 \<mapsto> 0::nat, Comp ''E'' 0 \<mapsto> 1, Comp ''B'' 0 \<mapsto> 2]) = 3 * 1"
proof -
  have h1: "generate_noise_alms counter_rand [[[Fin 1, Fin 1]]] 2 2 1 None () 0 =
      Inr ([Split 0 \<mapsto> 0, Split 1 \<mapsto> 1], 2)"
    by (rule counter_rand_t_run)
  have h3: "generate_noise_alms counter_rand [[[Fin 1, Fin 1]]] 2 1 3 (Some [[[Fin 1, Fin 1]]]) () 0 =
      Inr ([Comp ''T'' 0 \<mapsto> 0, Comp ''E'' 0 \<mapsto> 1, Comp ''B'' 0 \<mapsto> 2], 3)"
    by (rule counter_rand_teb_run) simp
  have e1: "(1::int) = 1" and e3: "(3::int) = 3"
    by simp_all
  have k1: "dom [Split 0 \<mapsto> 0::nat, Split 1 \<mapsto> 1] = Split ` {0..<2} \<and>
      card (dom [Split 0 \<mapsto> 0::nat, Split 1 \<mapsto> 1]) = 2"
    by (rule generate_noise_alms_keys[OF h1, THEN conjunct1, THEN mp, OF e1])
  have k3: "card (dom [Comp ''T'' 0 \<mapsto> 0::nat, Comp ''E'' 0 \<mapsto> 1, Comp ''B'' 0 \<mapsto> 2]) = 3 * 1"
    by (rule generate_noise_alms_keys[OF h3, THEN conjunct2, THEN mp, OF e3, THEN conjunct2])
  from h1 h3 k1 k3 show ?thesis
    by (intro conjI) (erule conjunct1 conjunct2 | assumption)+
qed

text \<open>
  C9. With \<^verbatim>\<open>ncomp == 1\<close> the polarization tensor is not used: two calls that agree on
  every other input and on the state of the random source return the same result,
  dictionary and state of the source, whatever is passed as \<^verbatim>\<open>nl_array_pol\<close>.
\<close>

theorem generate_noise_alms_ignores_pol:
  "generate_noise_alms rand nl_array_t lmax n_splits 1 pol1 dtype g =
   generate_noise_alms rand nl_array_t lmax n_splits 1 pol2 dtype g"
  by (simp add: generate_noise_alms_def)

theorem generate_noise_alms_ignores_pol_witness:
  "generate_noise_alms counter_rand [[[Fin 1, Fin 1]]] 2 2 1 None () 0 =
   Inr ([Split 0 \<mapsto> 0, Split 1 \<mapsto> 1], 2) \<and>
   generate_noise_alms counter_rand [[[Fin 1, Fin 1]]] 2 2 1 (Some [[[NonFin]]]) () 0 =
   Inr ([Split 0 \<mapsto> 0, Split 1 \<mapsto> 1], 2)"
  using generate_noise_alms_ignores_pol[of counter_rand "[[[Fin 1, Fin 1]]]" 2 2 None "()" 0 "Some [[[NonFin]]]"]
    counter_rand_t_run[of None]
  by simp

text \<open>
  C10. The function branches on \<^verbatim>\<open>ncomp == 1\<close> only. For every other value of \<^verbatim>\<open>ncomp\<close>
  the call is the call with \<^verbatim>\<open>ncomp == 3\<close>: when it returns, the keys are the pairs of a
  component among T, E, B and a split index, and when it raises, the error is one that the
  drawing primitive raised; no error comes from the value of \<^verbatim>\<open>ncomp\<close>.
\<close>

theorem generate_noise_alms_other_ncomp:
  assumes "ncomp \<noteq> 1"
  shows "generate_noise_alms rand nl_array_t lmax n_splits ncomp nl_array_pol dtype g =
           generate_noise_alms rand nl_array_t lmax n_splits 3 nl_array_pol dtype g \<and>
         (\<forall>nlms g'. generate_noise_alms rand nl_array_t lmax n_splits ncomp nl_array_pol dtype g = Inr (nlms, g')
            \<longrightarrow> dom nlms = {Comp c k | c k. c \<in> {''T'', ''E'', ''B''} \<and> k < n_splits}) \<and>
         (\<forall>e. generate_noise_alms rand nl_array_t lmax n_splits ncomp nl_array_pol dtype g = Inl e
            \<longrightarrow> (\<exists>ps g0. rand ps lmax dtype g0 = Inl e))"
proof (intro conjI allI impI)
  show "generate_noise_alms rand nl_array_t lmax n_splits ncomp nl_array_pol dtype g =
        generate_noise_alms rand nl_array_t lmax n_splits 3 nl_array_pol dtype g"
    using assms by (simp add: generate_noise_alms_def)
next
  fix nlms g'
  assume "generate_noise_alms rand nl_array_t lmax n_splits ncomp nl_array_pol dtype g = Inr (nlms, g')"
  with assms have
    "draw_teb rand nl_array_t nl_array_pol lmax dtype [0..<n_splits] (Map.empty, g) = Inr (nlms, g')"
    by (simp add: generate_noise_alms_def)
  from draw_teb_dom[OF this]
  show "dom nlms = {Comp c k | c k. c \<in> {''T'', ''E'', ''B''} \<and> k < n_splits}"
    by simp
next
  fix e
  assume "generate_noise_alms rand nl_array_t lmax n_splits ncomp nl_array_pol dtype g = Inl e"
  with assms have
    "draw_teb rand nl_array_t nl_array_pol lmax dtype [0..<n_splits] (Map.empty, g) = Inl e"
    by (simp add: generate_noise_alms_def)
  then show "\<exists>ps g0. rand ps lmax dtype g0 = Inl e"
    by (rule draw_teb_error)
qed

theorem generate_noise_alms_other_ncomp_witness:
  "generate_noise_alms counter_rand [[[Fin 1, Fin 1]]] 2 1 0 (Some [[[Fin 1, Fin 1]]]) () 0 =
     Inr ([Comp ''T'' 0 \<mapsto> 0, Comp ''E'' 0 \<mapsto> 1, Comp ''B'' 0 \<mapsto> 2], 3) \<and>
   generate_noise_alms counter_rand [[[Fin 1, Fin 1]]] 2 1 2 (Some [[[Fin 1, Fin 1]]]) () 0 =
     generate_noise_alms counter_rand [[[Fin 1, Fin 1]]] 2 1 3 (Some [[[Fin 1, Fin 1]]]) () 0 \<and>
   dom [Comp ''T'' 0 \<mapsto> 0::nat, Comp ''E'' 0 \<mapsto> 1, Comp ''B'' 0 \<mapsto> 2] =
     {Comp c k | c k. c \<in> {''T'', ''E'', ''B''} \<and> k < 1}"
proof -
  have n: "(2::int) \<noteq> 1" "(0::int) \<noteq> 1"
    by simp_all
  have h: "generate_noise_alms counter_rand [[[Fin 1, Fin 1]]] 2 1 0 (Some [[[Fin 1, Fin 1]]]) () 0 =
      Inr ([Comp ''T'' 0 \<mapsto> 0, Comp ''E'' 0 \<mapsto> 1, Comp ''B'' 0 \<mapsto> 2], 3)"
    by (rule counter_rand_teb_run) simp
  have d: "dom [Comp ''T'' 0 \<mapsto> 0::nat, Comp ''E'' 0 \<mapsto> 1, Comp ''B'' 0 \<mapsto> 2] =
      {Comp c k | c k. c \<in> {''T'', ''E'', ''B''} \<and> k < 1}"
    by (rule generate_noise_alms_other_ncomp[OF n(2), THEN conjunct2, THEN conjunct1, rule_format, OF h])
  have q: "generate_noise_alms counter_rand [[[Fin 1, Fin 1]]] 2 1 2 (Some [[[Fin 1, Fin 1]]]) () 0 =
     generate_noise_alms counter_rand [[[Fin 1, Fin 1]]] 2 1 3 (Some [[[Fin 1, Fin 1]]]) () 0"
    by (rule generate_noise_alms_other_ncomp[OF n(1), THEN conjunct1])
  show ?thesis
    by (intro conjI) (rule h q d)+
qed

text \<open>
  C3. The function has no check of its own for a missing polarization tensor: with
  \<^verbatim>\<open>ncomp == 3\<close> it hands \<^verbatim>\<open>None\<close> to the drawing primitive. With no split to draw it
  returns the empty dictionary and raises nothing.
\<close>

theorem generate_noise_alms_missing_pol_counterexample:
  "generate_noise_alms counter_rand [[[Fin 1, Fin 1]]] 2 0 3 None () 0 = Inr (Map.empty, 0)"
  by (simp add: generate_noise_alms_def)

text \<open>
  C3, as amended. With \<^verbatim>\<open>ncomp == 3\<close>, no polarization tensor and at least one split, the
  call raises whenever the drawing primitive raises on a missing power spectrum; with no
  split it returns the empty dictionary and leaves the random source as it was.
\<close>

theorem generate_noise_alms_missing_pol:
  "(0 < n_splits \<longrightarrow> (\<forall>g0. isl (rand None lmax dtype g0)) \<longrightarrow>
      isl (generate_noise_alms rand nl_array_t lmax n_splits 3 None dtype g)) \<and>
   generate_noise_alms rand nl_array_t lmax 0 3 None dtype g = Inr (Map.empty, g)"
proof (intro conjI impI)
  assume pos: "0 < n_splits" and bad: "\<forall>g0. isl (rand None lmax dtype g0)"
  from pos have u: "[0..<n_splits] = 0 # [1..<n_splits]"
    by (simp add: upt_conv_Cons)
  show "isl (generate_noise_alms rand nl_array_t lmax n_splits 3 None dtype g)"
  proof (cases "rand (Some nl_array_t) lmax dtype g")
    case (Inl e)
    then show ?thesis
      by (simp add: generate_noise_alms_def u)
  next
    case (Inr x)
    obtain a g1 where x: "x = (a, g1)" by (cases x)
    from bad obtain e where "rand None lmax dtype g1 = Inl e"
      by (auto simp: isl_def)
    with Inr x show ?thesis
      by (simp add: generate_noise_alms_def u)
  qed
next
  show "generate_noise_alms rand nl_array_t lmax 0 3 None dtype g = Inr (Map.empty, g)"
    by (simp add: generate_noise_alms_def)
qed

theorem generate_noise_alms_missing_pol_witness:
  "(0::nat) < 2 \<and> isl (counter_rand None 2 () 7) \<and>
   isl (generate_noise_alms counter_rand [[[Fin 1, Fin 1]]] 2 2 3 None () 0) \<and>
   generate_noise_alms counter_rand [[[Fin 1, Fin 1]]] 2 0 3 None () 0 = Inr (Map.empty, 0)"
proof -
  have b: "\<forall>g0. isl (counter_rand None 2 () g0)"
    by (simp add: counter_rand_def)
  from generate_noise_alms_missing_pol[of 2 counter_rand 2 "()" "[[[Fin 1, Fin 1]]]" 0] b
  show ?thesis by simp
qed

section \<open>Properties of the array operations and of the loops\<close>

lemma shape_zeros: "shape n m (zeros n n m)"
  by (simp add: shape_def zeros_def)

lemma broadcast_to_length: "broadcast_to n vs = Inr ws \<Longrightarrow> length ws = n"
  by (auto simp: broadcast_to_def split: if_splits)

lemma broadcast_to_nth:
  "broadcast_to n vs = Inr ws \<Longrightarrow> k < n \<Longrightarrow> k < length vs \<Longrightarrow> ws ! k = vs ! k"
  by (cases vs) (auto simp: broadcast_to_def split: if_splits)

lemma broadcast_to_set:
  assumes "broadcast_to n vs = Inr ws" "k < n"
  shows "ws ! k \<in> set vs"
proof (cases "length vs = n")
  case True
  with assms show ?thesis by (simp add: broadcast_to_def)
next
  case False
  with assms have "length vs = 1" "ws = replicate n (hd vs)"
    by (auto simp: broadcast_to_def split: if_splits)
  with assms show ?thesis by (cases vs) auto
qed

lemma assign_slice_props:
  assumes sh: "shape n m arr" and c: "c1 < n" "c2 < n"
    and a: "assign_slice arr c1 c2 start m vs = Inr arr'"
  shows "\<exists>ws. broadcast_to (m - start) vs = Inr ws \<and> arr' ! c1 ! c2 = take start (arr ! c1 ! c2) @ ws"
    and "shape n m arr'"
    and "\<And>i j. i < n \<Longrightarrow> j < n \<Longrightarrow> (i, j) \<noteq> (c1, c2) \<Longrightarrow> arr' ! i ! j = arr ! i ! j"
proof -
  from sh c have len: "length arr = n" "length (arr ! c1) = n" "length (arr ! c1 ! c2) = m"
    by (auto simp: shape_def)
  have lo: "min start (length (arr ! c1 ! c2)) = min start m"
    and hi: "max (min start m) m = m" and d: "m - min start m = m - start"
    using len by auto
  have cell: "\<And>ws. take (min start m) (arr ! c1 ! c2) @ ws @ drop m (arr ! c1 ! c2) =
      take start (arr ! c1 ! c2) @ ws"
    using len by (simp add: min_def)
  have a': "(case broadcast_to (m - start) vs of Inl e \<Rightarrow> Inl e
      | Inr ws \<Rightarrow> Inr (arr[c1 := (arr ! c1)[c2 := take start (arr ! c1 ! c2) @ ws]])) = Inr arr'"
    using a unfolding assign_slice_def Let_def len(3) min.idem hi d cell .
  then obtain ws where
    b: "broadcast_to (m - start) vs = Inr ws" and
    e': "arr' = arr[c1 := (arr ! c1)[c2 := take start (arr ! c1 ! c2) @ ws]]"
    by (cases "broadcast_to (m - start) vs") auto
  from b have lw: "length ws = m - start" by (rule broadcast_to_length)
  show "\<exists>ws. broadcast_to (m - start) vs = Inr ws \<and> arr' ! c1 ! c2 = take start (arr ! c1 ! c2) @ ws"
    using b e' len c by auto
  show "shape n m arr'"
    unfolding shape_def
  proof (intro conjI allI impI)
    show "length arr' = n" using e' len by simp
  next
    fix i assume "i < n"
    then show "length (arr' ! i) = n"
      using e' len sh by (cases "i = c1") (auto simp: shape_def)
  next
    fix i j assume "i < n" "j < n"
    then show "length (arr' ! i ! j) = m"
      using e' len sh lw by (cases "i = c1"; cases "j = c2") (auto simp: shape_def)
  qed
  show "\<And>i j. i < n \<Longrightarrow> j < n \<Longrightarrow> (i, j) \<noteq> (c1, c2) \<Longrightarrow> arr' ! i ! j = arr ! i ! j"
  proof -
    fix i j assume "i < n" "j < n" "(i, j) \<noteq> (c1, c2)"
    then show "arr' ! i ! j = arr ! i ! j"
      using len by (cases "i = c1") (simp_all add: e')
  qed
qed

lemma sym_plane_nth:
  assumes sh: "shape n m arr" and ab: "a < n" "b < n"
  shows "sym_plane k arr ! a ! b = (arr ! a ! b)[k := (if a \<le> b then arr ! a ! b ! k else arr ! b ! a ! k)]"
  using sh ab by (simp add: sym_plane_def set_plane_def fill_sym_mat_def get_plane_def shape_def)

lemma sym_plane_shape: "shape n m arr \<Longrightarrow> shape n m (sym_plane k arr)"
  unfolding shape_def
  by (simp add: sym_plane_def set_plane_def)

lemma fold_sym_plane:
  "shape n m arr \<Longrightarrow>
   shape n m (fold sym_plane ks arr) \<and>
   (\<forall>a<n. \<forall>b<n. \<forall>k<m. fold sym_plane ks arr ! a ! b ! k =
      (if k \<in> set ks \<and> b < a then arr ! b ! a ! k else arr ! a ! b ! k))"
proof (induction ks arbitrary: arr)
  case Nil
  then show ?case by simp
next
  case (Cons x ks)
  let ?arr1 = "sym_plane x arr"
  from Cons.prems have sh1: "shape n m ?arr1" by (rule sym_plane_shape)
  note ih = Cons.IH[OF sh1]
  have el: "\<And>a b k. a < n \<Longrightarrow> b < n \<Longrightarrow> k < m \<Longrightarrow>
      ?arr1 ! a ! b ! k = (if k = x \<and> b < a then arr ! b ! a ! k else arr ! a ! b ! k)"
    using Cons.prems by (auto simp: sym_plane_nth shape_def nth_list_update)
  show ?case
  proof (intro conjI allI impI)
    show "shape n m (fold sym_plane (x # ks) arr)" using ih by simp
  next
    fix a b k assume r: "a < n" "b < n" "k < m"
    with ih have "fold sym_plane ks ?arr1 ! a ! b ! k =
      (if k \<in> set ks \<and> b < a then ?arr1 ! b ! a ! k else ?arr1 ! a ! b ! k)"
      by blast
    then show "fold sym_plane (x # ks) arr ! a ! b ! k =
      (if k \<in> set (x # ks) \<and> b < a then arr ! b ! a ! k else arr ! a ! b ! k)"
      using r by (auto simp: el)
  qed
qed

lemma fold_sym_pair:
  "fold (\<lambda>i (t, p). (sym_plane i t, sym_plane i p)) ks (t, p) =
   (fold sym_plane ks t, fold sym_plane ks p)"
  by (induction ks arbitrary: t p) auto

lemma indexed_product:
  "indexed names (List.product (enumerate 0 names) (enumerate 0 names))"
  by (auto simp: indexed_def in_set_enumerate_eq)

lemma mem_product:
  "i < length names \<Longrightarrow> j < length names \<Longrightarrow>
   ((i, names ! i), (j, names ! j)) \<in> set (List.product (enumerate 0 names) (enumerate 0 names))"
  by (auto simp: in_set_enumerate_eq)

lemma indexed_Cons:
  "indexed names (((c1, a1), (c2, a2)) # ps) \<longleftrightarrow>
   c1 < length names \<and> c2 < length names \<and> a1 = names ! c1 \<and> a2 = names ! c2 \<and> indexed names ps"
  by (auto simp: indexed_def)

lemma noise_pairs_result:
  assumes "noise_pairs read_ps d s lmax ns ps (l0, t, p) = Inr (l', t', p')"
    and "shape (length names) lmax t" and "shape (length names) lmax p"
    and "indexed names ps"
  shows "shape (length names) lmax t' \<and> shape (length names) lmax p' \<and>
    (\<forall>i<length names. \<forall>j<length names.
       if i \<le> j \<and> ((i, names ! i), (j, names ! j)) \<in> set ps
       then noise_cell read_ps d s lmax ns (names ! i) (names ! j) (t' ! i ! j) (p' ! i ! j)
       else t' ! i ! j = t ! i ! j \<and> p' ! i ! j = p ! i ! j)"
  using assms
proof (induction ps arbitrary: l0 t p)
  case Nil
  then show ?case by simp
next
  case (Cons x ps)
  obtain c1 a1 c2 a2 where x: "x = ((c1, a1), (c2, a2))"
    by (metis surj_pair)
  from Cons.prems(4) have c: "c1 < length names" "c2 < length names"
    and a: "a1 = names ! c1" "a2 = names ! c2" and ix: "indexed names ps"
    by (simp_all add: x indexed_Cons)
  show ?case
  proof (cases "c2 < c1")
    case True
    with Cons.prems(1) have r: "noise_pairs read_ps d s lmax ns ps (l0, t, p) = Inr (l', t', p')"
      by (simp add: x)
    note ih = Cons.IH[OF r Cons.prems(2,3) ix]
    have m: "\<And>i j. i \<le> j \<Longrightarrow>
        ((i, names ! i), (j, names ! j)) \<in> set (x # ps) \<longleftrightarrow> ((i, names ! i), (j, names ! j)) \<in> set ps"
      using True by (auto simp: x)
    show ?thesis
    proof (intro conjI allI impI)
      fix i j assume "i < length names" "j < length names"
      with ih have "if i \<le> j \<and> ((i, names ! i), (j, names ! j)) \<in> set ps
       then noise_cell read_ps d s lmax ns (names ! i) (names ! j) (t' ! i ! j) (p' ! i ! j)
       else t' ! i ! j = t ! i ! j \<and> p' ! i ! j = p ! i ! j"
        by blast
      then show "if i \<le> j \<and> ((i, names ! i), (j, names ! j)) \<in> set (x # ps)
       then noise_cell read_ps d s lmax ns (names ! i) (names ! j) (t' ! i ! j) (p' ! i ! j)
       else t' ! i ! j = t ! i ! j \<and> p' ! i ! j = p ! i ! j"
        using m[of i j] by (cases "i \<le> j") simp_all
    qed (use ih in simp_all)
  next
    case False
    from Cons.prems(1) False obtain nl where rd: "read_ps (noise_path d a1 a2 s) = Inr nl"
      by (cases "read_ps (noise_path d a1 a2 s)") (simp_all add: x)
    from Cons.prems(1) False rd obtain t1 where
      at: "assign_slice t c1 c2 0 lmax (noise_row_t lmax ns nl) = Inr t1"
      by (cases "assign_slice t c1 c2 0 lmax (noise_row_t lmax ns nl)")
         (simp_all add: x Let_def noise_row_t_def)
    from Cons.prems(1) False rd at obtain p1 where
      ap: "assign_slice p c1 c2 0 lmax (noise_row_pol lmax ns nl) = Inr p1"
      by (cases "assign_slice p c1 c2 0 lmax (noise_row_pol lmax ns nl)")
         (simp_all add: x Let_def noise_row_t_def noise_row_pol_def)
    from Cons.prems(1) False rd at ap have
      r: "noise_pairs read_ps d s lmax ns ps (Some (take lmax (ells nl)), t1, p1) = Inr (l', t', p')"
      by (simp add: x Let_def noise_row_t_def noise_row_pol_def)
    note pt = assign_slice_props[OF Cons.prems(2) c at]
    note pp = assign_slice_props[OF Cons.prems(3) c ap]
    from pt(1) have ct: "broadcast_to lmax (noise_row_t lmax ns nl) = Inr (t1 ! c1 ! c2)"
      by auto
    from pp(1) have cp: "broadcast_to lmax (noise_row_pol lmax ns nl) = Inr (p1 ! c1 ! c2)"
      by auto
    have cell: "noise_cell read_ps d s lmax ns (names ! c1) (names ! c2) (t1 ! c1 ! c2) (p1 ! c1 ! c2)"
      unfolding noise_cell_def using rd ct cp a by blast
    note ih = Cons.IH[OF r pt(2) pp(2) ix]
    show ?thesis
    proof (intro conjI allI impI)
      fix i j assume ij: "i < length names" "j < length names"
      with ih have h: "if i \<le> j \<and> ((i, names ! i), (j, names ! j)) \<in> set ps
       then noise_cell read_ps d s lmax ns (names ! i) (names ! j) (t' ! i ! j) (p' ! i ! j)
       else t' ! i ! j = t1 ! i ! j \<and> p' ! i ! j = p1 ! i ! j"
        by blast
      show "if i \<le> j \<and> ((i, names ! i), (j, names ! j)) \<in> set (x # ps)
       then noise_cell read_ps d s lmax ns (names ! i) (names ! j) (t' ! i ! j) (p' ! i ! j)
       else t' ! i ! j = t ! i ! j \<and> p' ! i ! j = p ! i ! j"
      proof (cases "i \<le> j \<and> ((i, names ! i), (j, names ! j)) \<in> set ps")
        case True
        with h show ?thesis by simp
      next
        case n: False
        with h have e: "t' ! i ! j = t1 ! i ! j" "p' ! i ! j = p1 ! i ! j" by auto
        show ?thesis
        proof (cases "(i, j) = (c1, c2)")
          case True
          with False cell e a show ?thesis by (auto simp: x)
        next
          case False
          with pt(3)[OF ij] pp(3)[OF ij] e n show ?thesis by (auto simp: x)
        qed
      qed
    qed (use ih in simp_all)
  qed
qed

lemma noise_row_t_length: "length (noise_row_t lmax ns nl) = min (length nl) lmax"
  by (simp add: noise_row_t_def rescale_noise_def column_def ells_def)

lemma noise_row_pol_length: "length (noise_row_pol lmax ns nl) = min (length nl) lmax"
  by (simp add: noise_row_pol_def rescale_noise_def column_def ells_def)

lemma noise_row_t_nth:
  "k < lmax \<Longrightarrow> k < length nl \<Longrightarrow>
   noise_row_t lmax ns nl ! k =
     np_div (snd (nl ! k) ''TT'' * real ns * 2 * pi) (fst (nl ! k) * (fst (nl ! k) + 1))"
  by (simp add: noise_row_t_def rescale_noise_def column_def ells_def)

lemma noise_row_pol_nth:
  "k < lmax \<Longrightarrow> k < length nl \<Longrightarrow>
   noise_row_pol lmax ns nl ! k =
     np_div ((snd (nl ! k) ''EE'' + snd (nl ! k) ''BB'') / 2 * real ns * 2 * pi)
       (fst (nl ! k) * (fst (nl ! k) + 1))"
  by (simp add: noise_row_pol_def rescale_noise_def column_def ells_def)

lemma get_noise_result:
  assumes "get_noise_matrix_spin0and2 read_ps d s arrays lmax ns = Inr (l, T, P)"
  shows "\<forall>i<length arrays. \<forall>j<length arrays. \<exists>ct cp.
           noise_cell read_ps d s lmax ns (arrays ! min i j) (arrays ! max i j) ct cp \<and>
           (\<forall>k<lmax. T ! i ! j ! k = ct ! k \<and> P ! i ! j ! k = cp ! k)"
proof -
  let ?n = "length arrays"
  let ?ps = "List.product (enumerate 0 arrays) (enumerate 0 arrays)"
  from assms obtain l' t' p' where
    lp: "noise_pairs read_ps d s lmax ns ?ps (None, zeros ?n ?n lmax, zeros ?n ?n lmax) = Inr (l', t', p')"
    and T: "T = fold sym_plane [0..<lmax] t'" and P: "P = fold sym_plane [0..<lmax] p'"
    by (auto simp: get_noise_matrix_spin0and2_def Let_def fold_sym_pair
        split: sum.splits option.splits prod.splits)
  note r = noise_pairs_result[OF lp shape_zeros shape_zeros indexed_product]
  from r have sht: "shape ?n lmax t'" and shp: "shape ?n lmax p'"
    by simp_all
  note ft = fold_sym_plane[OF sht, of "[0..<lmax]"]
  note fp = fold_sym_plane[OF shp, of "[0..<lmax]"]
  show ?thesis
  proof (intro allI impI)
    fix i j assume ij: "i < ?n" "j < ?n"
    let ?a = "min i j" and ?b = "max i j"
    have ab: "?a < ?n" "?b < ?n" "?a \<le> ?b" using ij by auto
    from r ab mem_product[OF ab(1,2)]
    have cell: "noise_cell read_ps d s lmax ns (arrays ! ?a) (arrays ! ?b) (t' ! ?a ! ?b) (p' ! ?a ! ?b)"
      by auto
    have "\<forall>k<lmax. T ! i ! j ! k = t' ! ?a ! ?b ! k \<and> P ! i ! j ! k = p' ! ?a ! ?b ! k"
    proof (intro allI impI)
      fix k assume k: "k < lmax"
      from ft ij k have "T ! i ! j ! k = (if j < i then t' ! j ! i ! k else t' ! i ! j ! k)"
        by (simp add: T)
      moreover from fp ij k have "P ! i ! j ! k = (if j < i then p' ! j ! i ! k else p' ! i ! j ! k)"
        by (simp add: P)
      ultimately show "T ! i ! j ! k = t' ! ?a ! ?b ! k \<and> P ! i ! j ! k = p' ! ?a ! ?b ! k"
        by (auto simp: min_def max_def)
    qed
    with cell show "\<exists>ct cp.
           noise_cell read_ps d s lmax ns (arrays ! ?a) (arrays ! ?b) ct cp \<and>
           (\<forall>k<lmax. T ! i ! j ! k = ct ! k \<and> P ! i ! j ! k = cp ! k)"
      by blast
  qed
qed

lemma zeros_nth: "a < n \<Longrightarrow> b < n \<Longrightarrow> zeros n n m ! a ! b = replicate m (Fin 0)"
  by (simp add: zeros_def)

lemma shape_cell: "shape n m arr \<Longrightarrow> a < n \<Longrightarrow> b < n \<Longrightarrow> length (arr ! a ! b) = m"
  by (simp add: shape_def)

lemma take2_append:
  assumes "length c = m" "length ws = m - 2"
  shows "take 2 (take 2 c @ ws) = take 2 c" and "drop 2 (take 2 c @ ws) = ws"
  using assms by (cases "2 \<le> m"; simp add: min_def)+

lemma fg_pairs_result:
  assumes "fg_pairs loadtxt d lmax ps (l0, t) = Inr (l', t')"
    and "shape (length names) lmax t"
    and "indexed names ps"
  shows "shape (length names) lmax t' \<and>
    (\<forall>i<length names. \<forall>j<length names.
       take 2 (t' ! i ! j) = take 2 (t ! i ! j) \<and>
       (if i \<le> j \<and> ((i, names ! i), (j, names ! j)) \<in> set ps
        then fg_cell loadtxt d lmax (names ! i) (names ! j) (drop 2 (t' ! i ! j))
        else t' ! i ! j = t ! i ! j))"
  using assms
proof (induction ps arbitrary: l0 t)
  case Nil
  then show ?case by simp
next
  case (Cons x ps)
  obtain c1 a1 c2 a2 where x: "x = ((c1, a1), (c2, a2))"
    by (metis surj_pair)
  from Cons.prems(3) have c: "c1 < length names" "c2 < length names"
    and a: "a1 = names ! c1" "a2 = names ! c2" and ix: "indexed names ps"
    by (simp_all add: x indexed_Cons)
  show ?case
  proof (cases "c2 < c1")
    case True
    with Cons.prems(1) have r: "fg_pairs loadtxt d lmax ps (l0, t) = Inr (l', t')"
      by (simp add: x)
    note ih = Cons.IH[OF r Cons.prems(2) ix]
    have m: "\<And>i j. i \<le> j \<Longrightarrow>
        ((i, names ! i), (j, names ! j)) \<in> set (x # ps) \<longleftrightarrow> ((i, names ! i), (j, names ! j)) \<in> set ps"
      using True by (auto simp: x)
    show ?thesis
    proof (intro conjI allI impI)
      fix i j assume ij: "i < length names" "j < length names"
      with ih show "take 2 (t' ! i ! j) = take 2 (t ! i ! j)" by blast
      from ij ih have "if i \<le> j \<and> ((i, names ! i), (j, names ! j)) \<in> set ps
        then fg_cell loadtxt d lmax (names ! i) (names ! j) (drop 2 (t' ! i ! j))
        else t' ! i ! j = t ! i ! j"
        by blast
      then show "if i \<le> j \<and> ((i, names ! i), (j, names ! j)) \<in> set (x # ps)
        then fg_cell loadtxt d lmax (names ! i) (names ! j) (drop 2 (t' ! i ! j))
        else t' ! i ! j = t ! i ! j"
        using m[of i j] by (cases "i \<le> j") simp_all
    qed (use ih in simp_all)
  next
    case False
    from Cons.prems(1) False obtain tab where rd: "loadtxt (fg_path d a1 a2) = Inr tab"
      by (cases "loadtxt (fg_path d a1 a2)") (simp_all add: x)
    from Cons.prems(1) False rd obtain t1 where
      at: "assign_slice t c1 c2 2 lmax (fg_row lmax tab) = Inr t1"
      by (cases "assign_slice t c1 c2 2 lmax (fg_row lmax tab)")
         (simp_all add: x Let_def fg_row_def)
    from Cons.prems(1) False rd at have
      r: "fg_pairs loadtxt d lmax ps (Some (map fst tab), t1) = Inr (l', t')"
      by (simp add: x Let_def fg_row_def)
    note pt = assign_slice_props[OF Cons.prems(2) c at]
    from pt(1) obtain ws where
      b: "broadcast_to (lmax - 2) (fg_row lmax tab) = Inr ws" and
      e: "t1 ! c1 ! c2 = take 2 (t ! c1 ! c2) @ ws"
      by auto
    from Cons.prems(2) c have lc: "length (t ! c1 ! c2) = lmax"
      by (simp add: shape_def)
    from b have lw: "length ws = lmax - 2" by (rule broadcast_to_length)
    note ta = take2_append[OF lc lw]
    have dr: "drop 2 (t1 ! c1 ! c2) = ws"
      by (simp only: e ta)
    have cell: "fg_cell loadtxt d lmax (names ! c1) (names ! c2) (drop 2 (t1 ! c1 ! c2))"
      unfolding fg_cell_def dr using rd b a by blast
    have tk: "take 2 (t1 ! c1 ! c2) = take 2 (t ! c1 ! c2)"
      by (simp only: e ta)
    note ih = Cons.IH[OF r pt(2) ix]
    show ?thesis
    proof (intro conjI allI impI)
      fix i j assume ij: "i < length names" "j < length names"
      from ij ih have k: "take 2 (t' ! i ! j) = take 2 (t1 ! i ! j)" by blast
      from ij ih have h: "if i \<le> j \<and> ((i, names ! i), (j, names ! j)) \<in> set ps
        then fg_cell loadtxt d lmax (names ! i) (names ! j) (drop 2 (t' ! i ! j))
        else t' ! i ! j = t1 ! i ! j"
        by blast
      show "take 2 (t' ! i ! j) = take 2 (t ! i ! j)"
      proof (cases "(i, j) = (c1, c2)")
        case True
        with k tk show ?thesis by simp
      next
        case False
        with pt(3)[OF ij] k show ?thesis by simp
      qed
      show "if i \<le> j \<and> ((i, names ! i), (j, names ! j)) \<in> set (x # ps)
        then fg_cell loadtxt d lmax (names ! i) (names ! j) (drop 2 (t' ! i ! j))
        else t' ! i ! j = t ! i ! j"
      proof (cases "i \<le> j \<and> ((i, names ! i), (j, names ! j)) \<in> set ps")
        case True
        with h show ?thesis by simp
      next
        case n: False
        with h have e': "t' ! i ! j = t1 ! i ! j" by auto
        show ?thesis
        proof (cases "(i, j) = (c1, c2)")
          case True
          with False cell e' a show ?thesis by (auto simp: x)
        next
          case False
          with pt(3)[OF ij] e' n show ?thesis by (auto simp: x)
        qed
      qed
    qed (use ih in simp_all)
  qed
qed

lemma get_fg_result:
  assumes "get_foreground_matrix loadtxt d all_freqs lmax = Inr (l, F)"
  shows "\<forall>i<length all_freqs. \<forall>j<length all_freqs. \<exists>ws.
           fg_cell loadtxt d lmax (all_freqs ! min i j) (all_freqs ! max i j) ws \<and>
           (\<forall>k<lmax. F ! i ! j ! k = (if k < 2 then Fin 0 else ws ! (k - 2)))"
proof -
  let ?n = "length all_freqs"
  let ?ps = "List.product (enumerate 0 all_freqs) (enumerate 0 all_freqs)"
  from assms obtain l' t' where
    lp: "fg_pairs loadtxt d lmax ?ps (None, zeros ?n ?n lmax) = Inr (l', t')"
    and F: "F = fold sym_plane [0..<lmax] t'"
    by (auto simp: get_foreground_matrix_def Let_def split: sum.splits option.splits prod.splits)
  note r = fg_pairs_result[OF lp shape_zeros indexed_product]
  from r have sht: "shape ?n lmax t'"
    by simp
  note ft = fold_sym_plane[OF sht, of "[0..<lmax]"]
  show ?thesis
  proof (intro allI impI)
    fix i j assume ij: "i < ?n" "j < ?n"
    let ?a = "min i j" and ?b = "max i j"
    have ab: "?a < ?n" "?b < ?n" "?a \<le> ?b" using ij by auto
    from r ab mem_product[OF ab(1,2)]
    have cell: "fg_cell loadtxt d lmax (all_freqs ! ?a) (all_freqs ! ?b) (drop 2 (t' ! ?a ! ?b))"
      by auto
    from r have "\<forall>i<?n. \<forall>j<?n. take 2 (t' ! i ! j) = take 2 (zeros ?n ?n lmax ! i ! j)"
      by blast
    with ab have "take 2 (t' ! ?a ! ?b) = take 2 (zeros ?n ?n lmax ! ?a ! ?b)"
      by blast
    also have "zeros ?n ?n lmax ! ?a ! ?b = replicate lmax (Fin 0)"
      by (rule zeros_nth[OF ab(1,2)])
    finally have tk: "take 2 (t' ! ?a ! ?b) = take 2 (replicate lmax (Fin 0))" .
    have len: "length (t' ! ?a ! ?b) = lmax"
      by (rule shape_cell[OF sht ab(1,2)])
    have "\<forall>k<lmax. F ! i ! j ! k = (if k < 2 then Fin 0 else drop 2 (t' ! ?a ! ?b) ! (k - 2))"
    proof (intro allI impI)
      fix k assume k: "k < lmax"
      from ft ij k have "F ! i ! j ! k = (if j < i then t' ! j ! i ! k else t' ! i ! j ! k)"
        by (simp add: F)
      then have f: "F ! i ! j ! k = t' ! ?a ! ?b ! k"
        by (auto simp: min_def max_def)
      show "F ! i ! j ! k = (if k < 2 then Fin 0 else drop 2 (t' ! ?a ! ?b) ! (k - 2))"
      proof (cases "k < 2")
        case True
        then have "t' ! ?a ! ?b ! k = take 2 (t' ! ?a ! ?b) ! k" by simp
        also have "\<dots> = Fin 0" using True k by (simp add: tk)
        finally show ?thesis using True f by simp
      next
        case False
        then have k2: "2 + (k - 2) = k" by simp
        have "drop 2 (t' ! ?a ! ?b) ! (k - 2) = t' ! ?a ! ?b ! (2 + (k - 2))"
          using k len False by (intro nth_drop) simp
        then have "drop 2 (t' ! ?a ! ?b) ! (k - 2) = t' ! ?a ! ?b ! k"
          by (simp only: k2)
        with False f show ?thesis by simp
      qed
    qed
    with cell show "\<exists>ws.
           fg_cell loadtxt d lmax (all_freqs ! ?a) (all_freqs ! ?b) ws \<and>
           (\<forall>k<lmax. F ! i ! j ! k = (if k < 2 then Fin 0 else ws ! (k - 2)))"
      by blast
  qed
qed

lemma fg_row_nth:
  "r + 2 < lmax \<Longrightarrow> r < length tab \<Longrightarrow>
   fg_row lmax tab ! r =
     np_mul (Fin (snd (tab ! r))) (np_div (2 * pi) (fst (tab ! r) * (fst (tab ! r) + 1)))"
  by (simp add: fg_row_def py_take_def rescale_fg_def)

lemma fg_row_length:
  "2 \<le> lmax \<Longrightarrow> length (fg_row lmax tab) = min (length tab) (lmax - 2)"
  by (simp add: fg_row_def py_take_def rescale_fg_def)

section \<open>Properties of the noise matrices\<close>

lemma noise_cell_unique:
  "noise_cell read_ps d s lmax ns a b ct cp \<Longrightarrow> noise_cell read_ps d s lmax ns a b ct' cp' \<Longrightarrow>
   ct = ct' \<and> cp = cp'"
  by (auto simp: noise_cell_def)

lemma fg_cell_unique:
  "fg_cell loadtxt d lmax a b ws \<Longrightarrow> fg_cell loadtxt d lmax a b ws' \<Longrightarrow> ws = ws'"
  by (auto simp: fg_cell_def)

lemma noise_upper:
  assumes r: "get_noise_matrix_spin0and2 read_ps d s arrays lmax ns = Inr (l, T, P)"
    and ij: "i \<le> j" "j < length arrays"
  shows "\<exists>nl ct cp. read_ps (noise_path d (arrays ! i) (arrays ! j) s) = Inr nl \<and>
     broadcast_to lmax (noise_row_t lmax ns nl) = Inr ct \<and>
     broadcast_to lmax (noise_row_pol lmax ns nl) = Inr cp \<and>
     (\<forall>k<lmax. T ! i ! j ! k = ct ! k \<and> P ! i ! j ! k = cp ! k)"
proof -
  from ij have i: "i < length arrays" and m: "min i j = i" "max i j = j" by auto
  from get_noise_result[OF r] i ij(2) obtain ct cp where
    "noise_cell read_ps d s lmax ns (arrays ! min i j) (arrays ! max i j) ct cp"
    "\<forall>k<lmax. T ! i ! j ! k = ct ! k \<and> P ! i ! j ! k = cp ! k"
    by blast
  then show ?thesis unfolding m noise_cell_def by blast
qed

text \<open>
  C1. In the tensors returned by \<^verbatim>\<open>get_noise_matrix_spin0and2\<close>, for array indices
  \<open>i \<le> j\<close> and every row \<open>k\<close> of the truncated table of the pair, the temperature entry is
  the TT value of the row times \<open>nsplits * 2 * pi\<close> divided by \<open>l * (l + 1)\<close>, with \<open>l\<close> the
  multipole of the row, and the polarization entry is the same with the mean of the EE and
  BB values. The division is numpy's; where \<open>l * (l + 1)\<close> is not zero the entries are the
  real numbers \<open>TT * (nsplits * 2 * pi / (l * (l + 1)))\<close> and
  \<open>(EE + BB) / 2 * (nsplits * 2 * pi / (l * (l + 1)))\<close>. A constant TT spectrum \<open>C\<close> is the case
  where the TT value of every row is \<open>C\<close>.
\<close>

theorem noise_entries:
  assumes r: "get_noise_matrix_spin0and2 read_ps noise_dir survey arrays lmax nsplits =
      Inr (l, nl_array_t, nl_array_pol)"
    and ij: "i \<le> j" "j < length arrays"
  shows "\<exists>nl. read_ps (noise_path noise_dir (arrays ! i) (arrays ! j) survey) = Inr nl \<and>
     (\<forall>k. k < lmax \<and> k < length nl \<longrightarrow>
        nl_array_t ! i ! j ! k =
          np_div (snd (nl ! k) ''TT'' * real nsplits * 2 * pi) (fst (nl ! k) * (fst (nl ! k) + 1)) \<and>
        nl_array_pol ! i ! j ! k =
          np_div ((snd (nl ! k) ''EE'' + snd (nl ! k) ''BB'') / 2 * real nsplits * 2 * pi)
            (fst (nl ! k) * (fst (nl ! k) + 1)) \<and>
        (fst (nl ! k) * (fst (nl ! k) + 1) \<noteq> 0 \<longrightarrow>
           nl_array_t ! i ! j ! k =
             Fin (snd (nl ! k) ''TT'' * (real nsplits * 2 * pi / (fst (nl ! k) * (fst (nl ! k) + 1)))) \<and>
           nl_array_pol ! i ! j ! k =
             Fin ((snd (nl ! k) ''EE'' + snd (nl ! k) ''BB'') / 2 *
                  (real nsplits * 2 * pi / (fst (nl ! k) * (fst (nl ! k) + 1))))))"
proof -
  from noise_upper[OF r ij] obtain nl ct cp where
    rd: "read_ps (noise_path noise_dir (arrays ! i) (arrays ! j) survey) = Inr nl" and
    bt: "broadcast_to lmax (noise_row_t lmax nsplits nl) = Inr ct" and
    bp: "broadcast_to lmax (noise_row_pol lmax nsplits nl) = Inr cp" and
    el: "\<forall>k<lmax. nl_array_t ! i ! j ! k = ct ! k \<and> nl_array_pol ! i ! j ! k = cp ! k"
    by blast
  have "\<forall>k. k < lmax \<and> k < length nl \<longrightarrow>
        nl_array_t ! i ! j ! k =
          np_div (snd (nl ! k) ''TT'' * real nsplits * 2 * pi) (fst (nl ! k) * (fst (nl ! k) + 1)) \<and>
        nl_array_pol ! i ! j ! k =
          np_div ((snd (nl ! k) ''EE'' + snd (nl ! k) ''BB'') / 2 * real nsplits * 2 * pi)
            (fst (nl ! k) * (fst (nl ! k) + 1)) \<and>
        (fst (nl ! k) * (fst (nl ! k) + 1) \<noteq> 0 \<longrightarrow>
           nl_array_t ! i ! j ! k =
             Fin (snd (nl ! k) ''TT'' * (real nsplits * 2 * pi / (fst (nl ! k) * (fst (nl ! k) + 1)))) \<and>
           nl_array_pol ! i ! j ! k =
             Fin ((snd (nl ! k) ''EE'' + snd (nl ! k) ''BB'') / 2 *
                  (real nsplits * 2 * pi / (fst (nl ! k) * (fst (nl ! k) + 1)))))"
  proof (intro allI impI, elim conjE)
    fix k assume k: "k < lmax" "k < length nl"
    have "ct ! k = noise_row_t lmax nsplits nl ! k"
      using bt k by (intro broadcast_to_nth) (simp_all add: noise_row_t_length)
    with el k have t: "nl_array_t ! i ! j ! k =
          np_div (snd (nl ! k) ''TT'' * real nsplits * 2 * pi) (fst (nl ! k) * (fst (nl ! k) + 1))"
      by (simp add: noise_row_t_nth)
    have "cp ! k = noise_row_pol lmax nsplits nl ! k"
      using bp k by (intro broadcast_to_nth) (simp_all add: noise_row_pol_length)
    with el k have p: "nl_array_pol ! i ! j ! k =
          np_div ((snd (nl ! k) ''EE'' + snd (nl ! k) ''BB'') / 2 * real nsplits * 2 * pi)
            (fst (nl ! k) * (fst (nl ! k) + 1))"
      by (simp add: noise_row_pol_nth)
    show "nl_array_t ! i ! j ! k =
          np_div (snd (nl ! k) ''TT'' * real nsplits * 2 * pi) (fst (nl ! k) * (fst (nl ! k) + 1)) \<and>
        nl_array_pol ! i ! j ! k =
          np_div ((snd (nl ! k) ''EE'' + snd (nl ! k) ''BB'') / 2 * real nsplits * 2 * pi)
            (fst (nl ! k) * (fst (nl ! k) + 1)) \<and>
        (fst (nl ! k) * (fst (nl ! k) + 1) \<noteq> 0 \<longrightarrow>
           nl_array_t ! i ! j ! k =
             Fin (snd (nl ! k) ''TT'' * (real nsplits * 2 * pi / (fst (nl ! k) * (fst (nl ! k) + 1)))) \<and>
           nl_array_pol ! i ! j ! k =
             Fin ((snd (nl ! k) ''EE'' + snd (nl ! k) ''BB'') / 2 *
                  (real nsplits * 2 * pi / (fst (nl ! k) * (fst (nl ! k) + 1)))))"
      unfolding t p by (simp add: np_div_def)
  qed
  with rd show ?thesis by blast
qed

lemmas noise_eval = get_noise_matrix_spin0and2_def zeros_def noise_path_def
  example_spectra_def assign_slice_def broadcast_to_def rescale_noise_def column_def ells_def
  np_div_def sym_plane_def set_plane_def get_plane_def fill_sym_mat_def Let_def
  numeral_2_eq_2

lemma example_noise_run:
  "get_noise_matrix_spin0and2 example_read_ps ''n'' ''s'' [''a'', ''b''] 2 1 =
   Inr ([2, 3],
        [[[Fin (2 * pi), Fin pi], [Fin (4 * pi), Fin (2 * pi)]],
         [[Fin (4 * pi), Fin (2 * pi)], [Fin (6 * pi), Fin (3 * pi)]]],
        [[[Fin (6 * pi), Fin (3 * pi)], [Fin (12 * pi), Fin (6 * pi)]],
         [[Fin (12 * pi), Fin (6 * pi)], [Fin (18 * pi), Fin (9 * pi)]]])"
  by (simp add: noise_eval example_read_ps_def)

theorem noise_entries_witness:
  "get_noise_matrix_spin0and2 example_read_ps ''n'' ''s'' [''a'', ''b''] 2 1 =
   Inr ([2, 3],
        [[[Fin (2 * pi), Fin pi], [Fin (4 * pi), Fin (2 * pi)]],
         [[Fin (4 * pi), Fin (2 * pi)], [Fin (6 * pi), Fin (3 * pi)]]],
        [[[Fin (6 * pi), Fin (3 * pi)], [Fin (12 * pi), Fin (6 * pi)]],
         [[Fin (12 * pi), Fin (6 * pi)], [Fin (18 * pi), Fin (9 * pi)]]]) \<and>
   (0::nat) \<le> 1 \<and> (1::nat) < length [''a'', ''b''] \<and>
   example_read_ps (noise_path ''n'' ([''a'', ''b''] ! 0) ([''a'', ''b''] ! 1) ''s'') =
     Inr [(2, example_spectra 12), (3, example_spectra 12)] \<and>
   Fin (4 * pi) = Fin (12 * (real 1 * 2 * pi / (2 * (2 + 1)))) \<and>
   Fin (6 * pi) = Fin ((24 + 48) / 2 * (real 1 * 2 * pi / (3 * (3 + 1))))"
proof -
  have ij: "(0::nat) \<le> 1" "(1::nat) < length [''a'', ''b'']"
    by simp_all
  have rd: "example_read_ps (noise_path ''n'' ([''a'', ''b''] ! 0) ([''a'', ''b''] ! 1) ''s'') =
     Inr [(2, example_spectra 12), (3, example_spectra 12)]"
    by (simp add: example_read_ps_def noise_path_def)
  from noise_entries[OF example_noise_run ij] rd
  have a: "\<forall>k. k < 2 \<and> k < length [(2::real, example_spectra 12), (3, example_spectra 12)] \<longrightarrow>
      (fst ([(2::real, example_spectra 12), (3, example_spectra 12)] ! k) *
         (fst ([(2::real, example_spectra 12), (3, example_spectra 12)] ! k) + 1) \<noteq> 0 \<longrightarrow>
       [[[Fin (2 * pi), Fin pi], [Fin (4 * pi), Fin (2 * pi)]],
         [[Fin (4 * pi), Fin (2 * pi)], [Fin (6 * pi), Fin (3 * pi)]]] ! 0 ! 1 ! k =
         Fin (snd ([(2::real, example_spectra 12), (3, example_spectra 12)] ! k) ''TT'' *
           (real 1 * 2 * pi /
             (fst ([(2::real, example_spectra 12), (3, example_spectra 12)] ! k) *
               (fst ([(2::real, example_spectra 12), (3, example_spectra 12)] ! k) + 1)))) \<and>
       [[[Fin (6 * pi), Fin (3 * pi)], [Fin (12 * pi), Fin (6 * pi)]],
         [[Fin (12 * pi), Fin (6 * pi)], [Fin (18 * pi), Fin (9 * pi)]]] ! 0 ! 1 ! k =
         Fin ((snd ([(2::real, example_spectra 12), (3, example_spectra 12)] ! k) ''EE'' +
               snd ([(2::real, example_spectra 12), (3, example_spectra 12)] ! k) ''BB'') / 2 *
           (real 1 * 2 * pi /
             (fst ([(2::real, example_spectra 12), (3, example_spectra 12)] ! k) *
               (fst ([(2::real, example_spectra 12), (3, example_spectra 12)] ! k) + 1)))))"
    by auto
  from a[rule_format, of 0] have t0: "Fin (4 * pi) = Fin (12 * (real 1 * 2 * pi / (2 * (2 + 1))))"
    by (simp add: example_spectra_def)
  from a[rule_format, of 1] have p1:
    "Fin (6 * pi) = Fin ((24 + 48) / 2 * (real 1 * 2 * pi / (3 * (3 + 1))))"
    by (simp add: example_spectra_def)
  from example_noise_run ij rd t0 p1 show ?thesis
    by (intro conjI)
qed

lemma example_noise_l0_run:
  "get_noise_matrix_spin0and2 example_read_ps_l0 ''n'' ''s'' [''a''] 2 1 =
   Inr ([0, 1], [[[NonFin, Fin (6 * pi)]]], [[[NonFin, Fin (18 * pi)]]])"
  by (simp add: noise_eval example_read_ps_l0_def)

lemma noise_row_t_set:
  assumes "x \<in> set (noise_row_t lmax ns nl)"
  shows "\<exists>k. k < lmax \<and> k < length nl \<and>
    x = np_div (snd (nl ! k) ''TT'' * real ns * 2 * pi) (fst (nl ! k) * (fst (nl ! k) + 1))"
proof -
  from assms obtain k where k: "k < length (noise_row_t lmax ns nl)" "x = noise_row_t lmax ns nl ! k"
    by (auto simp: in_set_conv_nth)
  from k(1) have "k < lmax" "k < length nl" by (simp_all add: noise_row_t_length)
  with k(2) show ?thesis by (auto simp: noise_row_t_nth)
qed

lemma noise_row_pol_set:
  assumes "x \<in> set (noise_row_pol lmax ns nl)"
  shows "\<exists>k. k < lmax \<and> k < length nl \<and>
    x = np_div ((snd (nl ! k) ''EE'' + snd (nl ! k) ''BB'') / 2 * real ns * 2 * pi)
          (fst (nl ! k) * (fst (nl ! k) + 1))"
proof -
  from assms obtain k where k: "k < length (noise_row_pol lmax ns nl)" "x = noise_row_pol lmax ns nl ! k"
    by (auto simp: in_set_conv_nth)
  from k(1) have "k < lmax" "k < length nl" by (simp_all add: noise_row_pol_length)
  with k(2) show ?thesis by (auto simp: noise_row_pol_nth)
qed

lemma np_div_finite: "1 \<le> l \<Longrightarrow> np_div a (l * (l + 1)) \<noteq> NonFin"
  by (simp add: np_div_def)

text \<open>
  C8. The rescaling divides by \<open>l * (l + 1)\<close> without a guard. In the model the division
  by zero is the branch of \<open>np_div\<close> that yields \<open>NonFin\<close>, and nothing else in
  \<^verbatim>\<open>get_noise_matrix_spin0and2\<close> yields it. For array indices \<open>i \<le> j\<close>: a row of the
  truncated table of the pair with the multipole 0 leaves \<open>NonFin\<close> in both tensors at that
  row, so the branch is reached; and when every multipole of the truncated table is at
  least 1, no entry of the pair is \<open>NonFin\<close>, so the branch is not reached.
\<close>

theorem noise_division_by_zero:
  assumes r: "get_noise_matrix_spin0and2 read_ps noise_dir survey arrays lmax nsplits =
      Inr (l, nl_array_t, nl_array_pol)"
    and ij: "i \<le> j" "j < length arrays"
  shows "\<exists>nl. read_ps (noise_path noise_dir (arrays ! i) (arrays ! j) survey) = Inr nl \<and>
     (\<forall>k. k < lmax \<and> k < length nl \<and> fst (nl ! k) = 0 \<longrightarrow>
        nl_array_t ! i ! j ! k = NonFin \<and> nl_array_pol ! i ! j ! k = NonFin) \<and>
     ((\<forall>k. k < lmax \<and> k < length nl \<longrightarrow> 1 \<le> fst (nl ! k)) \<longrightarrow>
        (\<forall>k<lmax. nl_array_t ! i ! j ! k \<noteq> NonFin \<and> nl_array_pol ! i ! j ! k \<noteq> NonFin))"
proof -
  from noise_upper[OF r ij] obtain nl ct cp where
    rd: "read_ps (noise_path noise_dir (arrays ! i) (arrays ! j) survey) = Inr nl" and
    bt: "broadcast_to lmax (noise_row_t lmax nsplits nl) = Inr ct" and
    bp: "broadcast_to lmax (noise_row_pol lmax nsplits nl) = Inr cp" and
    el: "\<forall>k<lmax. nl_array_t ! i ! j ! k = ct ! k \<and> nl_array_pol ! i ! j ! k = cp ! k"
    by blast
  have z: "\<forall>k. k < lmax \<and> k < length nl \<and> fst (nl ! k) = 0 \<longrightarrow>
        nl_array_t ! i ! j ! k = NonFin \<and> nl_array_pol ! i ! j ! k = NonFin"
  proof (intro allI impI, elim conjE)
    fix k assume k: "k < lmax" "k < length nl" and z: "fst (nl ! k) = 0"
    have "ct ! k = noise_row_t lmax nsplits nl ! k"
      using bt k by (intro broadcast_to_nth) (simp_all add: noise_row_t_length)
    moreover have "cp ! k = noise_row_pol lmax nsplits nl ! k"
      using bp k by (intro broadcast_to_nth) (simp_all add: noise_row_pol_length)
    ultimately show "nl_array_t ! i ! j ! k = NonFin \<and> nl_array_pol ! i ! j ! k = NonFin"
      using el k z by (simp add: noise_row_t_nth noise_row_pol_nth np_div_def)
  qed
  have f: "(\<forall>k. k < lmax \<and> k < length nl \<longrightarrow> 1 \<le> fst (nl ! k)) \<longrightarrow>
        (\<forall>k<lmax. nl_array_t ! i ! j ! k \<noteq> NonFin \<and> nl_array_pol ! i ! j ! k \<noteq> NonFin)"
  proof (intro allI impI)
    fix k assume ge: "\<forall>k. k < lmax \<and> k < length nl \<longrightarrow> 1 \<le> fst (nl ! k)" and k: "k < lmax"
    from broadcast_to_set[OF bt k] noise_row_t_set obtain k1 where
      k1: "k1 < lmax \<and> k1 < length nl" and
      t: "ct ! k = np_div (snd (nl ! k1) ''TT'' * real nsplits * 2 * pi)
            (fst (nl ! k1) * (fst (nl ! k1) + 1))"
      by blast
    from broadcast_to_set[OF bp k] noise_row_pol_set obtain k2 where
      k2: "k2 < lmax \<and> k2 < length nl" and
      p: "cp ! k = np_div ((snd (nl ! k2) ''EE'' + snd (nl ! k2) ''BB'') / 2 * real nsplits * 2 * pi)
            (fst (nl ! k2) * (fst (nl ! k2) + 1))"
      by blast
    from ge k1 k2 have "1 \<le> fst (nl ! k1)" "1 \<le> fst (nl ! k2)" by blast+
    then have "ct ! k \<noteq> NonFin" "cp ! k \<noteq> NonFin"
      unfolding t p by (simp_all add: np_div_finite)
    with el k show "nl_array_t ! i ! j ! k \<noteq> NonFin \<and> nl_array_pol ! i ! j ! k \<noteq> NonFin"
      by simp
  qed
  from rd z f show ?thesis by blast
qed

theorem noise_division_by_zero_witness:
  "get_noise_matrix_spin0and2 example_read_ps_l0 ''n'' ''s'' [''a''] 2 1 =
     Inr ([0, 1], [[[NonFin, Fin (6 * pi)]]], [[[NonFin, Fin (18 * pi)]]]) \<and>
   fst ([(0::real, example_spectra 6), (1, example_spectra 6)] ! 0) = 0 \<and>
   [[[NonFin, Fin (6 * pi)]]] ! 0 ! 0 ! 0 = NonFin \<and>
   [[[NonFin, Fin (18 * pi)]]] ! 0 ! 0 ! 0 = NonFin \<and>
   1 \<le> fst ([(2::real, example_spectra 12), (3, example_spectra 12)] ! 0) \<and>
   1 \<le> fst ([(2::real, example_spectra 12), (3, example_spectra 12)] ! 1) \<and>
   [[[Fin (2 * pi), Fin pi], [Fin (4 * pi), Fin (2 * pi)]],
    [[Fin (4 * pi), Fin (2 * pi)], [Fin (6 * pi), Fin (3 * pi)]]] ! 0 ! 1 ! 1 \<noteq> NonFin"
proof -
  have ij0: "(0::nat) \<le> 0" "(0::nat) < length [''a'']"
    by simp_all
  have rd0: "example_read_ps_l0 (noise_path ''n'' ([''a''] ! 0) ([''a''] ! 0) ''s'') =
      Inr [(0, example_spectra 6), (1, example_spectra 6)]"
    by (simp add: example_read_ps_l0_def)
  from noise_division_by_zero[OF example_noise_l0_run ij0] rd0
  have a: "\<forall>k. k < 2 \<and> k < length [(0::real, example_spectra 6), (1, example_spectra 6)] \<and>
        fst ([(0::real, example_spectra 6), (1, example_spectra 6)] ! k) = 0 \<longrightarrow>
        [[[NonFin, Fin (6 * pi)]]] ! 0 ! 0 ! k = NonFin \<and>
        [[[NonFin, Fin (18 * pi)]]] ! 0 ! 0 ! k = NonFin"
    by auto
  have z: "fst ([(0::real, example_spectra 6), (1, example_spectra 6)] ! 0) = 0"
    by simp
  from a[rule_format, of 0] z have n0:
    "[[[NonFin, Fin (6 * pi)]]] ! 0 ! 0 ! 0 = NonFin \<and> [[[NonFin, Fin (18 * pi)]]] ! 0 ! 0 ! 0 = NonFin"
    by simp
  have ij: "(0::nat) \<le> 1" "(1::nat) < length [''a'', ''b'']"
    by simp_all
  have rd: "example_read_ps (noise_path ''n'' ([''a'', ''b''] ! 0) ([''a'', ''b''] ! 1) ''s'') =
     Inr [(2, example_spectra 12), (3, example_spectra 12)]"
    by (simp add: example_read_ps_def noise_path_def)
  have ge: "1 \<le> fst ([(2::real, example_spectra 12), (3, example_spectra 12)] ! 0)"
    "1 \<le> fst ([(2::real, example_spectra 12), (3, example_spectra 12)] ! 1)"
    by simp_all
  then have all: "\<forall>k. k < 2 \<and> k < length [(2::real, example_spectra 12), (3, example_spectra 12)] \<longrightarrow>
      1 \<le> fst ([(2::real, example_spectra 12), (3, example_spectra 12)] ! k)"
    by (auto simp: less_Suc_eq numeral_2_eq_2)
  from noise_division_by_zero[OF example_noise_run ij] rd all
  have "\<forall>k<2. [[[Fin (2 * pi), Fin pi], [Fin (4 * pi), Fin (2 * pi)]],
    [[Fin (4 * pi), Fin (2 * pi)], [Fin (6 * pi), Fin (3 * pi)]]] ! 0 ! 1 ! k \<noteq> NonFin"
    by auto
  then have f: "[[[Fin (2 * pi), Fin pi], [Fin (4 * pi), Fin (2 * pi)]],
    [[Fin (4 * pi), Fin (2 * pi)], [Fin (6 * pi), Fin (3 * pi)]]] ! 0 ! 1 ! 1 \<noteq> NonFin"
    by simp
  from example_noise_l0_run z n0 ge f show ?thesis
    by (intro conjI) (erule conjunct1 conjunct2 | assumption)+
qed

section \<open>Properties of the foreground matrix\<close>

lemmas fg_eval = get_foreground_matrix_def zeros_def fg_path_def
  assign_slice_def broadcast_to_def rescale_fg_def py_take_def
  np_div_def sym_plane_def set_plane_def get_plane_def fill_sym_mat_def Let_def
  eval_nat_numeral

lemma example_fg_run:
  "get_foreground_matrix example_loadtxt ''f'' [''90'', ''150''] 4 =
   Inr ([2, 3, 4, 5, 6],
        [[[Fin 0, Fin 0, Fin pi, Fin (2 * pi)], [Fin 0, Fin 0, Fin (2 * pi), Fin (4 * pi)]],
         [[Fin 0, Fin 0, Fin (2 * pi), Fin (4 * pi)], [Fin 0, Fin 0, Fin (3 * pi), Fin (6 * pi)]]])"
  by (simp add: fg_eval example_loadtxt_def)

lemma example_fg_l0_run:
  "get_foreground_matrix example_loadtxt_l0 ''f'' [''90''] 4 =
   Inr ([0, 1, 2, 3], [[[Fin 0, Fin 0, NonFin, Fin (20 * pi)]]])"
  by (simp add: fg_eval example_loadtxt_l0_def)

lemma fg_upper:
  assumes r: "get_foreground_matrix loadtxt d all_freqs lmax = Inr (l, F)"
    and ij: "i \<le> j" "j < length all_freqs"
  shows "\<exists>tab ws. loadtxt (fg_path d (all_freqs ! i) (all_freqs ! j)) = Inr tab \<and>
     broadcast_to (lmax - 2) (fg_row lmax tab) = Inr ws \<and>
     (\<forall>k<lmax. F ! i ! j ! k = (if k < 2 then Fin 0 else ws ! (k - 2)))"
proof -
  from ij have i: "i < length all_freqs" and m: "min i j = i" "max i j = j" by auto
  from get_fg_result[OF r] i ij(2) obtain ws where
    "fg_cell loadtxt d lmax (all_freqs ! min i j) (all_freqs ! max i j) ws"
    "\<forall>k<lmax. F ! i ! j ! k = (if k < 2 then Fin 0 else ws ! (k - 2))"
    by blast
  then show ?thesis unfolding m fg_cell_def by blast
qed

text \<open>
  C5. In every foreground tensor returned by \<^verbatim>\<open>get_foreground_matrix\<close> the entries at the
  multipole indices 0 and 1 are zero, for every pair of frequency indices and whatever the
  files hold.
\<close>

theorem foreground_zero_fill:
  assumes "get_foreground_matrix loadtxt fg_dir all_freqs lmax = Inr (l, fl_array)"
    and "i < length all_freqs" "j < length all_freqs" "k < 2" "k < lmax"
  shows "fl_array ! i ! j ! k = Fin 0"
proof -
  from get_fg_result[OF assms(1)] assms(2,3) obtain ws where
    "\<forall>k<lmax. fl_array ! i ! j ! k = (if k < 2 then Fin 0 else ws ! (k - 2))"
    by blast
  with assms(4,5) show ?thesis by simp
qed

theorem foreground_zero_fill_witness:
  "get_foreground_matrix example_loadtxt ''f'' [''90'', ''150''] 4 =
   Inr ([2, 3, 4, 5, 6],
        [[[Fin 0, Fin 0, Fin pi, Fin (2 * pi)], [Fin 0, Fin 0, Fin (2 * pi), Fin (4 * pi)]],
         [[Fin 0, Fin 0, Fin (2 * pi), Fin (4 * pi)], [Fin 0, Fin 0, Fin (3 * pi), Fin (6 * pi)]]]) \<and>
   (0::nat) < length [''90'', ''150''] \<and> (1::nat) < length [''90'', ''150''] \<and>
   (1::nat) < 2 \<and> (1::nat) < 4 \<and>
   [[[Fin 0, Fin 0, Fin pi, Fin (2 * pi)], [Fin 0, Fin 0, Fin (2 * pi), Fin (4 * pi)]],
    [[Fin 0, Fin 0, Fin (2 * pi), Fin (4 * pi)], [Fin 0, Fin 0, Fin (3 * pi), Fin (6 * pi)]]] ! 0 ! 1 ! 1 =
   Fin 0"
proof -
  have s: "(0::nat) < length [''90'', ''150'']" "(1::nat) < length [''90'', ''150'']"
    "(1::nat) < 2" "(1::nat) < 4"
    by simp_all
  from foreground_zero_fill[OF example_fg_run s] example_fg_run s
  show ?thesis by (intro conjI)
qed

text \<open>
  C6. The entry at the index \<open>l\<close> is not always the tabulated value at the multipole
  \<open>l\<close>, rescaled. The code places the rows by position: row 0 of the file goes to the
  index 2, whatever its multipole. With a file tabulated from the multipole 0, the entry
  at the index 2 is the value at the multipole 0, rescaled with \<open>l = 0\<close> (a division by
  zero), and the entry at the index 3 is the value at the multipole 1.
\<close>

theorem foreground_entries_counterexample:
  "get_foreground_matrix example_loadtxt_l0 ''f'' [''90''] 4 =
     Inr ([0, 1, 2, 3], [[[Fin 0, Fin 0, NonFin, Fin (20 * pi)]]]) \<and>
   example_loadtxt_l0 (fg_path ''f'' ''90'' ''90'') = Inr [(0, 10), (1, 20), (2, 30), (3, 40)] \<and>
   [[[Fin 0, Fin 0, NonFin, Fin (20 * pi)]]] ! 0 ! 0 ! 2 \<noteq> Fin (30 * (2 * pi / (2 * (2 + 1)))) \<and>
   [[[Fin 0, Fin 0, NonFin, Fin (20 * pi)]]] ! 0 ! 0 ! 3 \<noteq> Fin (40 * (2 * pi / (3 * (3 + 1))))"
  using example_fg_l0_run by (simp add: example_loadtxt_l0_def)

text \<open>
  C6, as amended. For frequency indices \<open>i \<le> j\<close> and every index \<open>k\<close> with
  \<open>2 \<le> k < lmax\<close> for which the file of the pair has a row \<open>k - 2\<close>, the entry at
  \<open>[i, j, k]\<close> is the value of that row times \<open>2 * pi / (l * (l + 1))\<close>, with \<open>l\<close> the
  multipole of that row. Where the multipole of row \<open>k - 2\<close> is \<open>k\<close>, as in a file
  tabulated from the multipole 2 in steps of 1, this is the tabulated value at the
  multipole \<open>k\<close> times \<open>2 * pi / (k * (k + 1))\<close>.
\<close>

theorem foreground_entries:
  assumes r: "get_foreground_matrix loadtxt fg_dir all_freqs lmax = Inr (l, fl_array)"
    and ij: "i \<le> j" "j < length all_freqs"
  shows "\<exists>tab. loadtxt (fg_path fg_dir (all_freqs ! i) (all_freqs ! j)) = Inr tab \<and>
     (\<forall>k. 2 \<le> k \<and> k < lmax \<and> k - 2 < length tab \<longrightarrow>
        fl_array ! i ! j ! k =
          np_mul (Fin (snd (tab ! (k - 2))))
            (np_div (2 * pi) (fst (tab ! (k - 2)) * (fst (tab ! (k - 2)) + 1))) \<and>
        (fst (tab ! (k - 2)) = real k \<longrightarrow>
           fl_array ! i ! j ! k = Fin (snd (tab ! (k - 2)) * (2 * pi / (real k * (real k + 1))))))"
proof -
  from fg_upper[OF r ij] obtain tab ws where
    rd: "loadtxt (fg_path fg_dir (all_freqs ! i) (all_freqs ! j)) = Inr tab" and
    b: "broadcast_to (lmax - 2) (fg_row lmax tab) = Inr ws" and
    el: "\<forall>k<lmax. fl_array ! i ! j ! k = (if k < 2 then Fin 0 else ws ! (k - 2))"
    by blast
  have "\<forall>k. 2 \<le> k \<and> k < lmax \<and> k - 2 < length tab \<longrightarrow>
        fl_array ! i ! j ! k =
          np_mul (Fin (snd (tab ! (k - 2))))
            (np_div (2 * pi) (fst (tab ! (k - 2)) * (fst (tab ! (k - 2)) + 1))) \<and>
        (fst (tab ! (k - 2)) = real k \<longrightarrow>
           fl_array ! i ! j ! k = Fin (snd (tab ! (k - 2)) * (2 * pi / (real k * (real k + 1)))))"
  proof (intro allI impI, elim conjE)
    fix k assume k: "2 \<le> k" "k < lmax" "k - 2 < length tab"
    from k have k2: "k - 2 + 2 < lmax" "k - 2 < lmax - 2" "2 \<le> lmax" by simp_all
    have "ws ! (k - 2) = fg_row lmax tab ! (k - 2)"
      using b k2(2) k(3) k2(3) by (intro broadcast_to_nth) (simp_all add: fg_row_length)
    with el k have e: "fl_array ! i ! j ! k =
          np_mul (Fin (snd (tab ! (k - 2))))
            (np_div (2 * pi) (fst (tab ! (k - 2)) * (fst (tab ! (k - 2)) + 1)))"
      by (simp add: fg_row_nth[OF k2(1) k(3)])
    have nz: "real k * (real k + 1) \<noteq> 0"
      using k(1) by simp
    show "fl_array ! i ! j ! k =
          np_mul (Fin (snd (tab ! (k - 2))))
            (np_div (2 * pi) (fst (tab ! (k - 2)) * (fst (tab ! (k - 2)) + 1))) \<and>
        (fst (tab ! (k - 2)) = real k \<longrightarrow>
           fl_array ! i ! j ! k = Fin (snd (tab ! (k - 2)) * (2 * pi / (real k * (real k + 1)))))"
      unfolding e using nz by (simp add: np_div_def)
  qed
  with rd show ?thesis by blast
qed

theorem foreground_entries_witness:
  "get_foreground_matrix example_loadtxt ''f'' [''90'', ''150''] 4 =
   Inr ([2, 3, 4, 5, 6],
        [[[Fin 0, Fin 0, Fin pi, Fin (2 * pi)], [Fin 0, Fin 0, Fin (2 * pi), Fin (4 * pi)]],
         [[Fin 0, Fin 0, Fin (2 * pi), Fin (4 * pi)], [Fin 0, Fin 0, Fin (3 * pi), Fin (6 * pi)]]]) \<and>
   (0::nat) \<le> 1 \<and> (1::nat) < length [''90'', ''150''] \<and>
   example_loadtxt (fg_path ''f'' ([''90'', ''150''] ! 0) ([''90'', ''150''] ! 1)) =
     Inr [(2, 6), (3, 24), (4, 40), (5, 60), (6, 84)] \<and>
   fst ([(2::real, 6::real), (3, 24), (4, 40), (5, 60), (6, 84)] ! (3 - 2)) = real 3 \<and>
   Fin (4 * pi) = Fin (24 * (2 * pi / (real 3 * (real 3 + 1))))"
proof -
  have ij: "(0::nat) \<le> 1" "(1::nat) < length [''90'', ''150'']"
    by simp_all
  have rd: "example_loadtxt (fg_path ''f'' ([''90'', ''150''] ! 0) ([''90'', ''150''] ! 1)) =
     Inr [(2, 6), (3, 24), (4, 40), (5, 60), (6, 84)]"
    by (simp add: example_loadtxt_def fg_path_def)
  have l3: "fst ([(2::real, 6::real), (3, 24), (4, 40), (5, 60), (6, 84)] ! (3 - 2)) = real 3"
    by simp
  from foreground_entries[OF example_fg_run ij] rd
  have a: "\<forall>k. 2 \<le> k \<and> k < 4 \<and> k - 2 < length [(2::real, 6::real), (3, 24), (4, 40), (5, 60), (6, 84)] \<longrightarrow>
      (fst ([(2::real, 6::real), (3, 24), (4, 40), (5, 60), (6, 84)] ! (k - 2)) = real k \<longrightarrow>
       [[[Fin 0, Fin 0, Fin pi, Fin (2 * pi)], [Fin 0, Fin 0, Fin (2 * pi), Fin (4 * pi)]],
        [[Fin 0, Fin 0, Fin (2 * pi), Fin (4 * pi)], [Fin 0, Fin 0, Fin (3 * pi), Fin (6 * pi)]]] ! 0 ! 1 ! k =
       Fin (snd ([(2::real, 6::real), (3, 24), (4, 40), (5, 60), (6, 84)] ! (k - 2)) *
            (2 * pi / (real k * (real k + 1)))))"
    by auto
  from a[rule_format, of 3] l3 have e: "Fin (4 * pi) = Fin (24 * (2 * pi / (real 3 * (real 3 + 1))))"
    by simp
  from example_fg_run ij rd l3 e show ?thesis
    by (intro conjI)
qed

text \<open>
  C7. The multipole axis that \<^verbatim>\<open>get_foreground_matrix\<close> returns is the whole multipole
  column of the last file read: with \<^verbatim>\<open>lmax = 4\<close> and files tabulated at the multipoles 2
  to 6 it returns all five multipoles, while the third axis of the tensor has four
  entries. \<^verbatim>\<open>get_noise_matrix_spin0and2\<close> truncates its axis (\<^verbatim>\<open>l = l[:lmax]\<close>);
  this function does not.
\<close>

theorem get_foreground_matrix_axis_not_truncated:
  "get_foreground_matrix example_loadtxt ''f'' [''90'', ''150''] 4 =
   Inr ([2, 3, 4, 5, 6],
        [[[Fin 0, Fin 0, Fin pi, Fin (2 * pi)], [Fin 0, Fin 0, Fin (2 * pi), Fin (4 * pi)]],
         [[Fin 0, Fin 0, Fin (2 * pi), Fin (4 * pi)], [Fin 0, Fin 0, Fin (3 * pi), Fin (6 * pi)]]])"
  by (rule example_fg_run)

section \<open>Symmetry of the tensors\<close>

text \<open>
  C2. Every tensor returned by \<^verbatim>\<open>get_noise_matrix_spin0and2\<close> and by
  \<^verbatim>\<open>get_foreground_matrix\<close> is symmetric in its first two indices: the entries at
  \<open>[i, j, k]\<close> and \<open>[j, i, k]\<close> are the same value, for all array or frequency indices
  \<open>i\<close>, \<open>j\<close> and every multipole index \<open>k\<close>. The symmetry comes from the symmetrizer, which
  is modelled from the spec.
\<close>

theorem tensors_symmetric:
  "(get_noise_matrix_spin0and2 read_ps noise_dir survey arrays lmax nsplits =
      Inr (l, nl_array_t, nl_array_pol) \<longrightarrow>
    (\<forall>i<length arrays. \<forall>j<length arrays. \<forall>k<lmax.
       nl_array_t ! i ! j ! k = nl_array_t ! j ! i ! k \<and>
       nl_array_pol ! i ! j ! k = nl_array_pol ! j ! i ! k)) \<and>
   (get_foreground_matrix loadtxt fg_dir all_freqs lmax' = Inr (l', fl_array) \<longrightarrow>
    (\<forall>i<length all_freqs. \<forall>j<length all_freqs. \<forall>k<lmax'.
       fl_array ! i ! j ! k = fl_array ! j ! i ! k))"
proof (rule conjI)
  show "get_noise_matrix_spin0and2 read_ps noise_dir survey arrays lmax nsplits =
      Inr (l, nl_array_t, nl_array_pol) \<longrightarrow>
    (\<forall>i<length arrays. \<forall>j<length arrays. \<forall>k<lmax.
       nl_array_t ! i ! j ! k = nl_array_t ! j ! i ! k \<and>
       nl_array_pol ! i ! j ! k = nl_array_pol ! j ! i ! k)"
  proof (intro impI allI)
    fix i j k
    assume r: "get_noise_matrix_spin0and2 read_ps noise_dir survey arrays lmax nsplits =
        Inr (l, nl_array_t, nl_array_pol)"
      and ij: "i < length arrays" "j < length arrays" and k: "k < lmax"
    from get_noise_result[OF r] ij obtain ct cp where
      c1: "noise_cell read_ps noise_dir survey lmax nsplits (arrays ! min i j) (arrays ! max i j) ct cp"
      and e1: "\<forall>k<lmax. nl_array_t ! i ! j ! k = ct ! k \<and> nl_array_pol ! i ! j ! k = cp ! k"
      by blast
    from get_noise_result[OF r] ij obtain ct' cp' where
      c2: "noise_cell read_ps noise_dir survey lmax nsplits (arrays ! min j i) (arrays ! max j i) ct' cp'"
      and e2: "\<forall>k<lmax. nl_array_t ! j ! i ! k = ct' ! k \<and> nl_array_pol ! j ! i ! k = cp' ! k"
      by blast
    have "min j i = min i j" "max j i = max i j" by auto
    with c1 c2 have "ct = ct' \<and> cp = cp'"
      by (auto dest: noise_cell_unique)
    with e1 e2 k show "nl_array_t ! i ! j ! k = nl_array_t ! j ! i ! k \<and>
         nl_array_pol ! i ! j ! k = nl_array_pol ! j ! i ! k"
      by simp
  qed
next
  show "get_foreground_matrix loadtxt fg_dir all_freqs lmax' = Inr (l', fl_array) \<longrightarrow>
    (\<forall>i<length all_freqs. \<forall>j<length all_freqs. \<forall>k<lmax'.
       fl_array ! i ! j ! k = fl_array ! j ! i ! k)"
  proof (intro impI allI)
    fix i j k
    assume r: "get_foreground_matrix loadtxt fg_dir all_freqs lmax' = Inr (l', fl_array)"
      and ij: "i < length all_freqs" "j < length all_freqs" and k: "k < lmax'"
    from get_fg_result[OF r] ij obtain ws where
      c1: "fg_cell loadtxt fg_dir lmax' (all_freqs ! min i j) (all_freqs ! max i j) ws"
      and e1: "\<forall>k<lmax'. fl_array ! i ! j ! k = (if k < 2 then Fin 0 else ws ! (k - 2))"
      by blast
    from get_fg_result[OF r] ij obtain ws' where
      c2: "fg_cell loadtxt fg_dir lmax' (all_freqs ! min j i) (all_freqs ! max j i) ws'"
      and e2: "\<forall>k<lmax'. fl_array ! j ! i ! k = (if k < 2 then Fin 0 else ws' ! (k - 2))"
      by blast
    have "min j i = min i j" "max j i = max i j" by auto
    with c1 c2 have "ws = ws'"
      by (auto dest: fg_cell_unique)
    with e1 e2 k show "fl_array ! i ! j ! k = fl_array ! j ! i ! k"
      by simp
  qed
qed

theorem tensors_symmetric_witness:
  "get_noise_matrix_spin0and2 example_read_ps ''n'' ''s'' [''a'', ''b''] 2 1 =
   Inr ([2, 3],
        [[[Fin (2 * pi), Fin pi], [Fin (4 * pi), Fin (2 * pi)]],
         [[Fin (4 * pi), Fin (2 * pi)], [Fin (6 * pi), Fin (3 * pi)]]],
        [[[Fin (6 * pi), Fin (3 * pi)], [Fin (12 * pi), Fin (6 * pi)]],
         [[Fin (12 * pi), Fin (6 * pi)], [Fin (18 * pi), Fin (9 * pi)]]]) \<and>
   [[[Fin (2 * pi), Fin pi], [Fin (4 * pi), Fin (2 * pi)]],
    [[Fin (4 * pi), Fin (2 * pi)], [Fin (6 * pi), Fin (3 * pi)]]] ! 0 ! 1 ! 1 =
   [[[Fin (2 * pi), Fin pi], [Fin (4 * pi), Fin (2 * pi)]],
    [[Fin (4 * pi), Fin (2 * pi)], [Fin (6 * pi), Fin (3 * pi)]]] ! 1 ! 0 ! 1 \<and>
   get_foreground_matrix example_loadtxt ''f'' [''90'', ''150''] 4 =
   Inr ([2, 3, 4, 5, 6],
        [[[Fin 0, Fin 0, Fin pi, Fin (2 * pi)], [Fin 0, Fin 0, Fin (2 * pi), Fin (4 * pi)]],
         [[Fin 0, Fin 0, Fin (2 * pi), Fin (4 * pi)], [Fin 0, Fin 0, Fin (3 * pi), Fin (6 * pi)]]]) \<and>
   [[[Fin 0, Fin 0, Fin pi, Fin (2 * pi)], [Fin 0, Fin 0, Fin (2 * pi), Fin (4 * pi)]],
    [[Fin 0, Fin 0, Fin (2 * pi), Fin (4 * pi)], [Fin 0, Fin 0, Fin (3 * pi), Fin (6 * pi)]]] ! 0 ! 1 ! 3 =
   [[[Fin 0, Fin 0, Fin pi, Fin (2 * pi)], [Fin 0, Fin 0, Fin (2 * pi), Fin (4 * pi)]],
    [[Fin 0, Fin 0, Fin (2 * pi), Fin (4 * pi)], [Fin 0, Fin 0, Fin (3 * pi), Fin (6 * pi)]]] ! 1 ! 0 ! 3"
proof -
  note n = tensors_symmetric[THEN conjunct1, THEN mp, OF example_noise_run,
      THEN spec, THEN mp, THEN spec, THEN mp, THEN spec, THEN mp, THEN conjunct1, of 0 1 1]
  note f = tensors_symmetric[THEN conjunct2, THEN mp, OF example_fg_run,
      THEN spec, THEN mp, THEN spec, THEN mp, THEN spec, THEN mp, of 0 1 3]
  have s: "(0::nat) < length [''a'', ''b'']" "(1::nat) < length [''a'', ''b'']" "(1::nat) < 2"
    "(0::nat) < length [''90'', ''150'']" "(1::nat) < length [''90'', ''150'']" "(3::nat) < 4"
    by simp_all
  from n[OF s(1) s(2) s(3)] f[OF s(4) s(5) s(6)] example_noise_run example_fg_run
  show ?thesis by (intro conjI)
qed

end
